theory Spec2Isabelle
  imports Main
begin

section \<open>Numbers and strings of the host language\<close>

text \<open>
  Row and column indices, span sizes and autofill values are JavaScript numbers that the
  component only ever uses as integers; they are modelled as \<open>int\<close>.  Values are assumed
  to stay inside the range in which JavaScript arithmetic on integers is exact and in which
  \<open>String(n)\<close> prints plain decimal digits.  A number that may be \<open>NaN\<close> (the row and
  column count typed by the user, the result of \<open>parseInt\<close>) carries that case
  explicitly.
\<close>

datatype jsnum = NaN | Num int

definition digitChar :: "nat \<Rightarrow> char" where
  "digitChar d = ''0123456789'' ! d"

function natToDigits :: "nat \<Rightarrow> string" where
  "natToDigits n = (if n < 10 then [digitChar n] else natToDigits (n div 10) @ [digitChar (n mod 10)])"
  by pat_completeness auto
termination
  by (relation "measure (\<lambda>n. n)") auto

declare natToDigits.simps [simp del]

text \<open>\<open>String(n)\<close>, also what a template literal \<open>`${n}`\<close> inserts, for an integer \<open>n\<close>.\<close>

definition jsString :: "int \<Rightarrow> string" where
  "jsString i = (if i < 0 then CHR ''-'' # natToDigits (nat (- i)) else natToDigits (nat i))"

section \<open>Data model\<close>

record CellObject =
  cell_id :: string
  sequenceNumber :: string
  isBlocked :: bool
  isMerged :: bool
  mergeId :: string
  isBlank :: bool
  rowIndex :: int
  columnIndex :: int

record TableRow =
  row_id :: string
  row_rowIndex :: int
  cells :: "CellObject list"

record MergeSpanInfo =
  rowSpan :: int
  colSpan :: int
  anchorRow :: int
  anchorCol :: int

datatype direction = Horizontal | Vertical

record AutofillDragState =
  active :: bool
  sourceRow :: int
  sourceCol :: int
  sourceValue :: jsnum
  direction :: "direction option"
  currentRow :: int
  currentCol :: int

text \<open>The template literals \<open>`cell_${r}_${c}`\<close> and \<open>`row_${r}`\<close>.\<close>

definition mkCellId :: "int \<Rightarrow> int \<Rightarrow> string" where
  "mkCellId r c = ''cell_'' @ jsString r @ ''_'' @ jsString c"

definition mkRowId :: "int \<Rightarrow> string" where
  "mkRowId r = ''row_'' @ jsString r"

definition createMergeId :: "int \<Rightarrow> int \<Rightarrow> int \<Rightarrow> int \<Rightarrow> string" where
  "createMergeId r1 c1 r2 c2 = jsString r1 @ jsString c1 @ jsString r2 @ jsString c2"


section \<open>Merge-span index\<close>

text \<open>
  \<open>computeMergeSpans\<close> first groups the positions of all merged cells by their
  \<open>mergeId\<close> (the object \<open>groupedByMerge\<close>, here a map from identifiers to position
  lists in push order) and then takes the bounding box of every group.  The result object
  is only ever read by key, so it is a map from identifiers to spans.  Identifiers are
  plain keys: the property names that a JavaScript object inherits from its prototype are
  not modelled.
\<close>

type_synonym mergeSpans = "string \<rightharpoonup> MergeSpanInfo"

definition groupStep :: "(string \<rightharpoonup> (int \<times> int) list) \<Rightarrow> CellObject \<Rightarrow> (string \<rightharpoonup> (int \<times> int) list)" where
  "groupStep g cell =
     (if \<not> isMerged cell \<or> mergeId cell = [] then g
      else g(mergeId cell \<mapsto>
             (case g (mergeId cell) of None \<Rightarrow> [] | Some ps \<Rightarrow> ps) @ [(rowIndex cell, columnIndex cell)]))"

definition groupedByMerge :: "TableRow list \<Rightarrow> (string \<rightharpoonup> (int \<times> int) list)" where
  "groupedByMerge rws = foldl (\<lambda>g rw. foldl groupStep g (cells rw)) Map.empty rws"

text \<open>\<open>Math.min(...xs)\<close> and \<open>Math.max(...xs)\<close> on a list that is known to be non-empty.\<close>

definition mathMin :: "int \<Rightarrow> int list \<Rightarrow> int" where
  "mathMin x xs = fold min xs x"

definition mathMax :: "int \<Rightarrow> int list \<Rightarrow> int" where
  "mathMax x xs = fold max xs x"

fun spanOfPositions :: "(int \<times> int) list \<Rightarrow> MergeSpanInfo option" where
  "spanOfPositions [] = None"
| "spanOfPositions (p # ps) =
     (let minRow = mathMin (fst p) (map fst ps); maxRow = mathMax (fst p) (map fst ps);
          minCol = mathMin (snd p) (map snd ps); maxCol = mathMax (snd p) (map snd ps)
      in Some \<lparr>rowSpan = maxRow - minRow + 1, colSpan = maxCol - minCol + 1,
                anchorRow = minRow, anchorCol = minCol\<rparr>)"

definition computeMergeSpans :: "TableRow list \<Rightarrow> mergeSpans" where
  "computeMergeSpans rws =
     (\<lambda>m. case groupedByMerge rws m of None \<Rightarrow> None | Some ps \<Rightarrow> spanOfPositions ps)"

definition isCellHidden :: "CellObject \<Rightarrow> mergeSpans \<Rightarrow> bool" where
  "isCellHidden cell spans =
     (if \<not> isMerged cell \<or> mergeId cell = [] then False
      else case spans (mergeId cell) of
             None \<Rightarrow> False
           | Some span \<Rightarrow> \<not> (rowIndex cell = anchorRow span \<and> columnIndex cell = anchorCol span))"

definition isFillable :: "CellObject \<Rightarrow> mergeSpans \<Rightarrow> bool" where
  "isFillable cell spans =
     (if isBlank cell then False else if isCellHidden cell spans then False else True)"

text \<open>
  The lookup \<open>tableRows.find(row => row.rowIndex === r)?.cells.find(cell => cell.columnIndex === c)\<close>
  that every handler uses: the first row with that row index, and in it the first cell
  with that column index.
\<close>

definition getCell :: "TableRow list \<Rightarrow> int \<Rightarrow> int \<Rightarrow> CellObject option" where
  "getCell rws r c =
     (case find (\<lambda>rw. row_rowIndex rw = r) rws of
        None \<Rightarrow> None
      | Some rw \<Rightarrow> find (\<lambda>cell. columnIndex cell = c) (cells rw))"

text \<open>
  The handlers copy the grid and then assign to fields of the cell objects they found.
  \<open>updateCell\<close> applies such an assignment to the cell that the lookup above returns,
  \<open>mapCells\<close> is the \<open>forEach\<close> over all rows and all their cells.
\<close>

fun updFirst :: "('a \<Rightarrow> bool) \<Rightarrow> ('a \<Rightarrow> 'a) \<Rightarrow> 'a list \<Rightarrow> 'a list" where
  "updFirst P f [] = []"
| "updFirst P f (x # xs) = (if P x then f x # xs else x # updFirst P f xs)"

definition updateCell :: "TableRow list \<Rightarrow> int \<Rightarrow> int \<Rightarrow> (CellObject \<Rightarrow> CellObject) \<Rightarrow> TableRow list" where
  "updateCell rws r c f =
     updFirst (\<lambda>rw. row_rowIndex rw = r)
       (\<lambda>rw. rw\<lparr>cells := updFirst (\<lambda>cell. columnIndex cell = c) f (cells rw)\<rparr>) rws"

definition mapCells :: "(CellObject \<Rightarrow> CellObject) \<Rightarrow> TableRow list \<Rightarrow> TableRow list" where
  "mapCells f rws = map (\<lambda>rw. rw\<lparr>cells := map f (cells rw)\<rparr>) rws"

definition allCells :: "TableRow list \<Rightarrow> CellObject list" where
  "allCells rws = concat (map cells rws)"

section \<open>Statistics\<close>

text \<open>
  \<open>updateCellStatistics\<close> computes four counts and hands them to the four attributes.
  The model returns the four counts.
\<close>

record CellStatistics =
  totalCells :: nat
  blockedCells :: nat
  mergedCells :: nat
  blankCells :: nat

definition updateCellStatistics :: "TableRow list \<Rightarrow> mergeSpans \<Rightarrow> CellStatistics" where
  "updateCellStatistics rws spans =
     \<lparr>totalCells = foldl (\<lambda>sum rw. sum + length (cells rw)) 0 rws,
      blockedCells = foldl (\<lambda>sum rw. sum + length (filter isBlocked (cells rw))) 0 rws,
      mergedCells =
        foldl (\<lambda>sum rw. sum + length (filter (\<lambda>c. isMerged c \<and> \<not> isCellHidden c spans) (cells rw))) 0 rws,
      blankCells =
        foldl (\<lambda>sum rw. sum + length (filter (\<lambda>c. isBlank c \<and> \<not> isCellHidden c spans) (cells rw))) 0 rws\<rparr>"

section \<open>Grid construction\<close>

text \<open>The default cell that \<open>createNewTable\<close>, \<open>addRow\<close> and \<open>addColumn\<close> build.\<close>

definition defaultCell :: "int \<Rightarrow> int \<Rightarrow> CellObject" where
  "defaultCell r c =
     \<lparr>cell_id = mkCellId r c, sequenceNumber = ''-'', isBlocked = False, isMerged = False,
      mergeId = [], isBlank = False, rowIndex = r, columnIndex = c\<rparr>"

text \<open>
  \<open>Array.from({length: n}, (_, idx) => f (idx + 1))\<close> for an integer \<open>n\<close>: no element when
  \<open>n\<close> is not positive.
\<close>

definition arrayFrom :: "int \<Rightarrow> (int \<Rightarrow> 'a) \<Rightarrow> 'a list" where
  "arrayFrom n f = map f [1..n]"

definition defaultRow :: "int \<Rightarrow> int \<Rightarrow> TableRow" where
  "defaultRow cols r =
     \<lparr>row_id = mkRowId r, row_rowIndex = r, cells = arrayFrom cols (\<lambda>c. defaultCell r c)\<rparr>"

definition newTableRows :: "int \<Rightarrow> int \<Rightarrow> TableRow list" where
  "newTableRows rws cols = arrayFrom rws (defaultRow cols)"

section \<open>Reading integers from strings\<close>

text \<open>
  Strings are byte strings here; the white space that \<open>trim\<close> and \<open>parseInt\<close> skip is
  modelled by its ASCII members (space, tab, line feed, vertical tab, form feed, carriage
  return).
\<close>

definition isWhiteSpace :: "char \<Rightarrow> bool" where
  "isWhiteSpace ch = (ch \<in> set [CHR '' '', CHR 0x09, CHR 0x0A, CHR 0x0B, CHR 0x0C, CHR 0x0D])"

definition isDigit :: "char \<Rightarrow> bool" where
  "isDigit ch = (ch \<in> set ''0123456789'')"

definition trim :: "string \<Rightarrow> string" where
  "trim s = rev (dropWhile isWhiteSpace (rev (dropWhile isWhiteSpace s)))"

text \<open>The regular expression \<open>/^-?\d+$/\<close>.\<close>

fun matchesInteger :: "string \<Rightarrow> bool" where
  "matchesInteger [] = False"
| "matchesInteger (ch # s) =
     (if ch = CHR ''-'' then s \<noteq> [] \<and> list_all isDigit s else list_all isDigit (ch # s))"

definition isInteger :: "string \<Rightarrow> bool" where
  "isInteger val = (let trimmed = trim val in trimmed \<noteq> [] \<and> trimmed \<noteq> ''-'' \<and> matchesInteger trimmed)"

definition digitVal :: "char \<Rightarrow> int" where
  "digitVal ch = int (of_char ch) - 48"

definition digitsValue :: "string \<Rightarrow> int" where
  "digitsValue ds = foldl (\<lambda>acc ch. 10 * acc + digitVal ch) 0 ds"

text \<open>
  \<open>parseInt(s, 10)\<close>: leading white space is skipped, one sign is read, then the longest
  prefix of decimal digits; \<open>NaN\<close> when that prefix is empty.
\<close>

definition parseDigits :: "string \<Rightarrow> jsnum" where
  "parseDigits s = (let ds = takeWhile isDigit s in if ds = [] then NaN else Num (digitsValue ds))"

definition jsNeg :: "jsnum \<Rightarrow> jsnum" where
  "jsNeg x = (case x of NaN \<Rightarrow> NaN | Num v \<Rightarrow> Num (- v))"

definition jsAdd :: "jsnum \<Rightarrow> int \<Rightarrow> jsnum" where
  "jsAdd x k = (case x of NaN \<Rightarrow> NaN | Num v \<Rightarrow> Num (v + k))"

definition parseInt10 :: "string \<Rightarrow> jsnum" where
  "parseInt10 s =
     (case dropWhile isWhiteSpace s of
        [] \<Rightarrow> NaN
      | ch # rest \<Rightarrow>
          if ch = CHR ''-'' then jsNeg (parseDigits rest)
          else if ch = CHR ''+'' then parseDigits rest
          else parseDigits (ch # rest))"

section \<open>Autofill run\<close>

text \<open>
  The four loops of \<open>getAutofillCells\<close>.  Each walks one coordinate away from the source,
  stops at the bound or at the first cell that is missing or not fillable, and pushes
  \<open>{row, col, value: startVal + counter}\<close>.
\<close>

type_synonym fillCell = "int \<times> int \<times> jsnum"

function fillRight :: "TableRow list \<Rightarrow> mergeSpans \<Rightarrow> int \<Rightarrow> jsnum \<Rightarrow> int \<Rightarrow> int \<Rightarrow> int \<Rightarrow> fillCell list" where
  "fillRight rws spans srcRow startVal maxCol c counter =
     (if c \<le> maxCol then
        (case getCell rws srcRow c of
           None \<Rightarrow> []
         | Some cell \<Rightarrow>
             if \<not> isFillable cell spans then []
             else (srcRow, c, jsAdd startVal counter)
                    # fillRight rws spans srcRow startVal maxCol (c + 1) (counter + 1))
      else [])"
  by pat_completeness auto
termination
  by (relation "measure (\<lambda>(rws, spans, srcRow, startVal, maxCol, c, counter). nat (maxCol + 1 - c))") auto

function fillLeft :: "TableRow list \<Rightarrow> mergeSpans \<Rightarrow> int \<Rightarrow> jsnum \<Rightarrow> int \<Rightarrow> int \<Rightarrow> int \<Rightarrow> fillCell list" where
  "fillLeft rws spans srcRow startVal minCol c counter =
     (if c \<ge> minCol then
        (case getCell rws srcRow c of
           None \<Rightarrow> []
         | Some cell \<Rightarrow>
             if \<not> isFillable cell spans then []
             else (srcRow, c, jsAdd startVal counter)
                    # fillLeft rws spans srcRow startVal minCol (c - 1) (counter + 1))
      else [])"
  by pat_completeness auto
termination
  by (relation "measure (\<lambda>(rws, spans, srcRow, startVal, minCol, c, counter). nat (c + 1 - minCol))") auto

function fillDown :: "TableRow list \<Rightarrow> mergeSpans \<Rightarrow> int \<Rightarrow> jsnum \<Rightarrow> int \<Rightarrow> int \<Rightarrow> int \<Rightarrow> fillCell list" where
  "fillDown rws spans srcCol startVal maxRow r counter =
     (if r \<le> maxRow then
        (case getCell rws r srcCol of
           None \<Rightarrow> []
         | Some cell \<Rightarrow>
             if \<not> isFillable cell spans then []
             else (r, srcCol, jsAdd startVal counter)
                    # fillDown rws spans srcCol startVal maxRow (r + 1) (counter + 1))
      else [])"
  by pat_completeness auto
termination
  by (relation "measure (\<lambda>(rws, spans, srcCol, startVal, maxRow, r, counter). nat (maxRow + 1 - r))") auto

function fillUp :: "TableRow list \<Rightarrow> mergeSpans \<Rightarrow> int \<Rightarrow> jsnum \<Rightarrow> int \<Rightarrow> int \<Rightarrow> int \<Rightarrow> fillCell list" where
  "fillUp rws spans srcCol startVal minRow r counter =
     (if r \<ge> minRow then
        (case getCell rws r srcCol of
           None \<Rightarrow> []
         | Some cell \<Rightarrow>
             if \<not> isFillable cell spans then []
             else (r, srcCol, jsAdd startVal counter)
                    # fillUp rws spans srcCol startVal minRow (r - 1) (counter + 1))
      else [])"
  by pat_completeness auto
termination
  by (relation "measure (\<lambda>(rws, spans, srcCol, startVal, minRow, r, counter). nat (r + 1 - minRow))") auto

declare fillRight.simps [simp del] fillLeft.simps [simp del] fillDown.simps [simp del] fillUp.simps [simp del]

definition getAutofillCells ::
  "TableRow list \<Rightarrow> mergeSpans \<Rightarrow> int \<Rightarrow> int \<Rightarrow> int \<Rightarrow> int \<Rightarrow> direction option \<Rightarrow> fillCell list" where
  "getAutofillCells rws spans srcRow srcCol tgtRow tgtCol dir =
     (case dir of
        None \<Rightarrow> []
      | Some d \<Rightarrow>
          (case getCell rws srcRow srcCol of
             None \<Rightarrow> []
           | Some sourceCell \<Rightarrow>
               if \<not> isInteger (sequenceNumber sourceCell) then []
               else
                 let startVal = parseInt10 (sequenceNumber sourceCell) in
                 (case d of
                    Horizontal \<Rightarrow>
                      (let minCol = min srcCol tgtCol; maxCol = max srcCol tgtCol;
                           goRight = (tgtCol > srcCol)
                       in if goRight then fillRight rws spans srcRow startVal maxCol (srcCol + 1) 1
                          else fillLeft rws spans srcRow startVal minCol (srcCol - 1) 1)
                  | Vertical \<Rightarrow>
                      (let minRow = min srcRow tgtRow; maxRow = max srcRow tgtRow;
                           goDown = (tgtRow > srcRow)
                       in if goDown then fillDown rws spans srcCol startVal maxRow (srcRow + 1) 1
                          else fillUp rws spans srcCol startVal minRow (srcRow - 1) 1))))"

subsection \<open>The run as the specification words it\<close>





section \<open>Cell identifiers in the selection\<close>

text \<open>
  A \<open>Set<string>\<close> keeps its members in insertion order (the unmerge handler reads the
  first one): it is a list without repetitions, \<open>add\<close> appends a new member and leaves
  the set alone when the member is there already.
\<close>

definition setAdd :: "string list \<Rightarrow> string \<Rightarrow> string list" where
  "setAdd s x = (if x \<in> set s then s else s @ [x])"

definition setDelete :: "string list \<Rightarrow> string \<Rightarrow> string list" where
  "setDelete s x = removeAll x s"

definition setOf :: "string list \<Rightarrow> string list" where
  "setOf xs = foldl setAdd [] xs"

text \<open>
  The handlers read the coordinates back from an identifier with
  \<open>id.replace("cell_", "").split("_")\<close> and \<open>parseInt\<close> on the first two parts.
  \<open>replace\<close> with a string pattern removes the first occurrence only; \<open>parseInt\<close> without a
  radix reads decimal digits, or hexadecimal digits after \<open>0x\<close>.
\<close>

fun removeFirst :: "string \<Rightarrow> string \<Rightarrow> string" where
  "removeFirst pat [] = []"
| "removeFirst pat (x # xs) =
     (if take (length pat) (x # xs) = pat then drop (length pat) (x # xs)
      else x # removeFirst pat xs)"

fun splitOn :: "char \<Rightarrow> string \<Rightarrow> string list" where
  "splitOn sep [] = [[]]"
| "splitOn sep (x # xs) =
     (if x = sep then [] # splitOn sep xs
      else (case splitOn sep xs of [] \<Rightarrow> [[x]] | p # ps \<Rightarrow> (x # p) # ps))"

definition isHexDigit :: "char \<Rightarrow> bool" where
  "isHexDigit ch = (ch \<in> set ''0123456789abcdefABCDEF'')"

definition hexVal :: "char \<Rightarrow> int" where
  "hexVal ch =
     (if isDigit ch then int (of_char ch) - 48
      else if ch \<in> set ''abcdef'' then int (of_char ch) - 87
      else int (of_char ch) - 55)"

definition parseHexDigits :: "string \<Rightarrow> jsnum" where
  "parseHexDigits s =
     (let ds = takeWhile isHexDigit s
      in if ds = [] then NaN else Num (foldl (\<lambda>acc ch. 16 * acc + hexVal ch) 0 ds))"

definition parseUnsigned :: "string \<Rightarrow> jsnum" where
  "parseUnsigned s =
     (if take 2 s = ''0x'' \<or> take 2 s = ''0X'' then parseHexDigits (drop 2 s) else parseDigits s)"

definition parseInt :: "string \<Rightarrow> jsnum" where
  "parseInt s =
     (case dropWhile isWhiteSpace s of
        [] \<Rightarrow> NaN
      | ch # rest \<Rightarrow>
          if ch = CHR ''-'' then jsNeg (parseUnsigned rest)
          else if ch = CHR ''+'' then parseUnsigned rest
          else parseUnsigned (ch # rest))"

text \<open>The pair \<open>(parseInt(parts[0]), parseInt(parts[1]))\<close>; a missing part reads as \<open>NaN\<close>.\<close>

definition parseCellId :: "string \<Rightarrow> jsnum \<times> jsnum" where
  "parseCellId cid =
     (let parts = splitOn CHR ''_'' (removeFirst ''cell_'' cid)
      in (case parts of
            [] \<Rightarrow> (NaN, NaN)
          | [p0] \<Rightarrow> (parseInt p0, NaN)
          | p0 # p1 # _ \<Rightarrow> (parseInt p0, parseInt p1)))"

text \<open>A lookup with a coordinate that is \<open>NaN\<close> finds nothing: \<open>===\<close> never holds for it.\<close>

definition getCellJs :: "TableRow list \<Rightarrow> jsnum \<times> jsnum \<Rightarrow> CellObject option" where
  "getCellJs rws p = (case p of (Num r, Num c) \<Rightarrow> getCell rws r c | _ \<Rightarrow> None)"

definition updateCellJs :: "TableRow list \<Rightarrow> jsnum \<times> jsnum \<Rightarrow> (CellObject \<Rightarrow> CellObject) \<Rightarrow> TableRow list" where
  "updateCellJs rws p f = (case p of (Num r, Num c) \<Rightarrow> updateCell rws r c f | _ \<Rightarrow> rws)"

section \<open>The component state\<close>

text \<open>
  The state variables and refs of the component that the grid, selection and autofill
  handlers read or write.  \<open>mergeSpans\<close> is not a field: an effect resets it to
  \<open>computeMergeSpans tableRows\<close> whenever \<open>tableRows\<close> changes, so a handler that reads
  it reads \<open>computeMergeSpans\<close> of the rows of the same state.  The persistence
  bookkeeping (\<open>isSaving\<close>, \<open>lastSavedDataRef\<close>, the attribute writes of
  \<open>saveToBackend\<close>) belongs to the host binding and is left out; where a modelled
  function reads it, it is a parameter.
\<close>

record widget =
  rowCount :: jsnum
  columnCount :: jsnum
  tableRows :: "TableRow list"
  selectedCells :: "string list"
  isSelectionMode :: bool
  isDragging :: bool
  dragStartCell :: "(int \<times> int) option"
  dragSelection :: "string list"
  preSelection :: "string list"
  autofillDrag :: AutofillDragState
  autofillPreviewCells :: "string list"
  dataLoaded :: bool
  pendingGenerate :: bool

definition idleDrag :: AutofillDragState where
  "idleDrag = \<lparr>active = False, sourceRow = 0, sourceCol = 0, sourceValue = Num 0,
     direction = None, currentRow = 0, currentCol = 0\<rparr>"

text \<open>The state after the first render, before any effect has run.\<close>

definition initialWidget :: "jsnum \<Rightarrow> jsnum \<Rightarrow> widget" where
  "initialWidget rws cols =
     \<lparr>rowCount = rws, columnCount = cols, tableRows = [], selectedCells = [],
      isSelectionMode = False, isDragging = False, dragStartCell = None, dragSelection = [],
      preSelection = [], autofillDrag = idleDrag, autofillPreviewCells = [],
      dataLoaded = False, pendingGenerate = False\<rparr>"

definition resetDragState :: "widget \<Rightarrow> widget" where
  "resetDragState w = w\<lparr>isDragging := False, dragStartCell := None, dragSelection := [], preSelection := []\<rparr>"

section \<open>Selection engine\<close>

definition getRectangularSelection :: "int \<Rightarrow> int \<Rightarrow> int \<Rightarrow> int \<Rightarrow> string list" where
  "getRectangularSelection startRow startCol endRow endCol =
     (let minRow = min startRow endRow; maxRow = max startRow endRow;
          minCol = min startCol endCol; maxCol = max startCol endCol
      in setOf (concat (map (\<lambda>r. map (\<lambda>c. mkCellId r c) [minCol..maxCol]) [minRow..maxRow])))"

text \<open>
  \<open>handleCellMouseDown\<close>.  \<open>allowed\<close> is \<open>isSelectionAllowed\<close>, \<open>onInput\<close> says that the
  event target is an \<open>INPUT\<close> element, \<open>shiftKey\<close> is the modifier of the event.
\<close>

definition handleCellMouseDown :: "bool \<Rightarrow> bool \<Rightarrow> bool \<Rightarrow> int \<Rightarrow> int \<Rightarrow> widget \<Rightarrow> widget" where
  "handleCellMouseDown allowed onInput shiftKey r c w =
     (if \<not> allowed then w
      else if onInput then w
      else if active (autofillDrag w) then w
      else w\<lparr>preSelection := selectedCells w, isDragging := True, dragStartCell := Some (r, c),
              isSelectionMode := True, dragSelection := [mkCellId r c],
              selectedCells := (if shiftKey then setAdd (selectedCells w) (mkCellId r c)
                                else [mkCellId r c])\<rparr>)"

definition handleCellMouseEnter :: "int \<Rightarrow> int \<Rightarrow> widget \<Rightarrow> widget" where
  "handleCellMouseEnter r c w =
     (if \<not> isDragging w then w
      else case dragStartCell w of
             None \<Rightarrow> w
           | Some start \<Rightarrow>
               (let dragged = getRectangularSelection (fst start) (snd start) r c
                in w\<lparr>dragSelection := dragged,
                      selectedCells := foldl setAdd (preSelection w) dragged\<rparr>))"

text \<open>The \<open>mouseup\<close> listener of the selection drag.\<close>

definition onMouseUp :: "widget \<Rightarrow> widget" where
  "onMouseUp w =
     (if isDragging w then w\<lparr>isDragging := False, dragStartCell := None, preSelection := []\<rparr> else w)"

definition handleCellClick :: "bool \<Rightarrow> bool \<Rightarrow> int \<Rightarrow> int \<Rightarrow> widget \<Rightarrow> widget" where
  "handleCellClick allowed ctrlOrCmd r c w =
     (if \<not> allowed then w
      else if isDragging w then w
      else if isSelectionMode w then
        w\<lparr>selectedCells :=
            (let s = selectedCells w; cid = mkCellId r c
             in if ctrlOrCmd then
                  (if cid \<in> set s \<and> length s > 1 then setDelete s cid else setAdd s cid)
                else
                  (if cid \<in> set s \<and> length s = 1 then s else setAdd s cid))\<rparr>
      else w\<lparr>selectedCells := [mkCellId r c], isSelectionMode := True\<rparr>)"

definition selectAllCells :: "bool \<Rightarrow> widget \<Rightarrow> widget" where
  "selectAllCells allowed w =
     (if \<not> allowed then w
      else w\<lparr>selectedCells :=
                setOf (map cell_id
                  (filter (\<lambda>cell. \<not> isCellHidden cell (computeMergeSpans (tableRows w)))
                     (allCells (tableRows w)))),
              isSelectionMode := True\<rparr>)"

definition clearSelection :: "widget \<Rightarrow> widget" where
  "clearSelection w = w\<lparr>selectedCells := [], isSelectionMode := False\<rparr>"

subsection \<open>The selection as the specification words it\<close>

text \<open>
  An identifier is that of a non-hidden cell when some cell of the grid carries it and is
  not hidden; the selection is restricted to non-hidden cells when every member is such
  an identifier.
\<close>

definition visibleId :: "TableRow list \<Rightarrow> string \<Rightarrow> bool" where
  "visibleId rws cid =
     list_ex (\<lambda>cell. cell_id cell = cid \<and> \<not> isCellHidden cell (computeMergeSpans rws)) (allCells rws)"

definition selectionVisible :: "widget \<Rightarrow> bool" where
  "selectionVisible w = list_all (visibleId (tableRows w)) (selectedCells w)"

section \<open>Value and block mutations\<close>

text \<open>
  The updater functions that the handlers pass to \<open>setTableRows\<close>, as functions from the
  previous rows to the new rows.
\<close>

definition handleCellValueChange :: "int \<Rightarrow> int \<Rightarrow> string \<Rightarrow> TableRow list \<Rightarrow> TableRow list" where
  "handleCellValueChange r c newValue prevRows =
     (case getCell prevRows r c of
        None \<Rightarrow> prevRows
      | Some targetCell \<Rightarrow>
          (let rows1 = updateCell prevRows r c (\<lambda>cell. cell\<lparr>sequenceNumber := newValue\<rparr>)
           in if mergeId targetCell \<noteq> [] then
                mapCells (\<lambda>cell. if mergeId cell = mergeId targetCell
                                   then cell\<lparr>sequenceNumber := newValue\<rparr> else cell) rows1
              else rows1))"

definition handleCheckboxChange :: "int \<Rightarrow> int \<Rightarrow> TableRow list \<Rightarrow> TableRow list" where
  "handleCheckboxChange r c prevRows =
     (case getCell prevRows r c of
        None \<Rightarrow> prevRows
      | Some targetCell \<Rightarrow>
          (let newBlocked = (\<not> isBlocked targetCell);
               rows1 = updateCell prevRows r c (\<lambda>cell. cell\<lparr>isBlocked := newBlocked\<rparr>)
           in if mergeId targetCell \<noteq> [] then
                mapCells (\<lambda>cell. if mergeId cell = mergeId targetCell
                                   then cell\<lparr>isBlocked := newBlocked\<rparr> else cell) rows1
              else rows1))"

section \<open>Merge and unmerge\<close>

text \<open>\<open>Math.min\<close> and \<open>Math.max\<close> over parsed coordinates: \<open>NaN\<close> as soon as one is.\<close>

fun numbers :: "jsnum list \<Rightarrow> int list option" where
  "numbers [] = Some []"
| "numbers (NaN # xs) = None"
| "numbers (Num v # xs) = (case numbers xs of None \<Rightarrow> None | Some vs \<Rightarrow> Some (v # vs))"

definition mathMinJs :: "jsnum list \<Rightarrow> jsnum" where
  "mathMinJs xs = (case numbers xs of Some (v # vs) \<Rightarrow> Num (mathMin v vs) | _ \<Rightarrow> NaN)"

definition mathMaxJs :: "jsnum list \<Rightarrow> jsnum" where
  "mathMaxJs xs = (case numbers xs of Some (v # vs) \<Rightarrow> Num (mathMax v vs) | _ \<Rightarrow> NaN)"

text \<open>
  The bounding box \<open>minRow, maxRow, minCol, maxCol\<close> of the selection.  \<open>mergeCells\<close>
  computes it only for a selection of two or more members, so the argument lists of
  \<open>Math.min\<close> and \<open>Math.max\<close> are not empty.  When a bound is \<open>NaN\<close> there is no box:
  every loop condition on it is false at once and every cell lookup with it fails.
\<close>

definition selectionBounds :: "string list \<Rightarrow> (int \<times> int \<times> int \<times> int) option" where
  "selectionBounds sel =
     (let positions = map parseCellId sel;
          minRow = mathMinJs (map fst positions); maxRow = mathMaxJs (map fst positions);
          minCol = mathMinJs (map snd positions); maxCol = mathMaxJs (map snd positions)
      in case (minRow, maxRow, minCol, maxCol) of
           (Num r1, Num r2, Num c1, Num c2) \<Rightarrow> Some (r1, r2, c1, c2)
         | _ \<Rightarrow> None)"

text \<open>
  The positions that the nested loops \<open>for r = minRow..maxRow\<close>, \<open>for c = minCol..maxCol\<close>
  visit, in that order.
\<close>

definition rectPositions :: "int \<Rightarrow> int \<Rightarrow> int \<Rightarrow> int \<Rightarrow> (int \<times> int) list" where
  "rectPositions minRow maxRow minCol maxCol =
     concat (map (\<lambda>r. map (\<lambda>c. (r, c)) [minCol..maxCol]) [minRow..maxRow])"

definition rectangleCellIds :: "int \<Rightarrow> int \<Rightarrow> int \<Rightarrow> int \<Rightarrow> string list" where
  "rectangleCellIds minRow maxRow minCol maxCol =
     setOf (map (\<lambda>p. mkCellId (fst p) (snd p)) (rectPositions minRow maxRow minCol maxCol))"

text \<open>The test that the validation loop applies to one identifier of the rectangle.\<close>

definition rectCellOk :: "widget \<Rightarrow> string \<Rightarrow> bool" where
  "rectCellOk w cid =
     (if cid \<in> set (selectedCells w) then True
      else case getCellJs (tableRows w) (parseCellId cid) of
             None \<Rightarrow> False
           | Some cell \<Rightarrow>
               if isMerged cell \<and> mergeId cell \<noteq> [] then
                 (case computeMergeSpans (tableRows w) (mergeId cell) of
                    None \<Rightarrow> False
                  | Some span \<Rightarrow> mkCellId (anchorRow span) (anchorCol span) \<in> set (selectedCells w))
               else False)"

text \<open>The first pair of loops of the updater: dissolve every merge group met in the rectangle.\<close>

definition dissolveStep :: "TableRow list \<Rightarrow> int \<times> int \<Rightarrow> TableRow list" where
  "dissolveStep rws p =
     (case getCell rws (fst p) (snd p) of
        None \<Rightarrow> rws
      | Some cell \<Rightarrow>
          if isMerged cell \<and> mergeId cell \<noteq> [] then
            mapCells (\<lambda>c2. if mergeId c2 = mergeId cell then c2\<lparr>isMerged := False, mergeId := []\<rparr> else c2) rws
          else rws)"

text \<open>
  The second pair of loops: every cell found in the rectangle gets the fields of
  \<open>topLeft\<close>.  \<open>topLeft\<close> is a cell of the grid being changed; the loop reaches it first
  and assigns its own three values to it, so the values read later are those read here.
\<close>

definition assignStep :: "CellObject \<Rightarrow> string \<Rightarrow> TableRow list \<Rightarrow> int \<times> int \<Rightarrow> TableRow list" where
  "assignStep topLeft mid rws p =
     updateCell rws (fst p) (snd p)
       (\<lambda>cell. cell\<lparr>sequenceNumber := sequenceNumber topLeft, isBlocked := isBlocked topLeft,
                      isBlank := isBlank topLeft, isMerged := True, mergeId := mid\<rparr>)"

definition mergeRows :: "int \<Rightarrow> int \<Rightarrow> int \<Rightarrow> int \<Rightarrow> TableRow list \<Rightarrow> TableRow list" where
  "mergeRows minRow maxRow minCol maxCol prevRows =
     (let rows1 = foldl dissolveStep prevRows (rectPositions minRow maxRow minCol maxCol);
          mid = createMergeId minRow minCol maxRow maxCol
      in case getCell rows1 minRow minCol of
           None \<Rightarrow> prevRows
         | Some topLeft \<Rightarrow> foldl (assignStep topLeft mid) rows1 (rectPositions minRow maxRow minCol maxCol))"

text \<open>
  \<open>mergeCells\<close>.  The result carries the text of the \<open>alert\<close>, if one was raised, and the
  state after the call.  Without a bounding box the rectangle is empty, the validation
  loop has nothing to reject, the updater finds no top-left cell and returns the previous
  rows, and the calls after it clear the selection.
\<close>

definition mergeCells :: "widget \<Rightarrow> string option \<times> widget" where
  "mergeCells w =
     (if length (selectedCells w) < 2 then (None, w)
      else
        case selectionBounds (selectedCells w) of
          None \<Rightarrow> (None, resetDragState (w\<lparr>selectedCells := [], isSelectionMode := False\<rparr>))
        | Some (minRow, maxRow, minCol, maxCol) \<Rightarrow>
            let isValidRect = list_all (rectCellOk w) (rectangleCellIds minRow maxRow minCol maxCol)
            in if \<not> isValidRect then (Some ''Please select a rectangular area to merge'', w)
               else (None, resetDragState
                       (w\<lparr>tableRows := mergeRows minRow maxRow minCol maxCol (tableRows w),
                           selectedCells := [], isSelectionMode := False\<rparr>)))"

definition unmergeRows :: "jsnum \<times> jsnum \<Rightarrow> TableRow list \<Rightarrow> TableRow list" where
  "unmergeRows p prevRows =
     (case getCellJs prevRows p of
        None \<Rightarrow> prevRows
      | Some target \<Rightarrow>
          if \<not> isMerged target then prevRows
          else mapCells (\<lambda>cell. if mergeId cell = mergeId target
                                 then cell\<lparr>isMerged := False, mergeId := []\<rparr> else cell) prevRows)"

definition unmergeCells :: "widget \<Rightarrow> widget" where
  "unmergeCells w =
     (case selectedCells w of
        [] \<Rightarrow> w
      | cid # _ \<Rightarrow> resetDragState (w\<lparr>tableRows := unmergeRows (parseCellId cid) (tableRows w)\<rparr>))"

section \<open>Blank and unblank\<close>

text \<open>
  One step of the \<open>forEach\<close> over the selection; \<open>spans\<close> is the \<open>mergeSpans\<close> of the
  render in which the handler was created, the rows are those being changed.
\<close>

definition blankStep :: "bool \<Rightarrow> mergeSpans \<Rightarrow> TableRow list \<Rightarrow> string \<Rightarrow> TableRow list" where
  "blankStep b spans rws cid =
     (case getCellJs rws (parseCellId cid) of
        None \<Rightarrow> rws
      | Some cell \<Rightarrow>
          if isCellHidden cell spans then rws
          else
            let rows1 = updateCellJs rws (parseCellId cid) (\<lambda>c. c\<lparr>isBlank := b\<rparr>)
            in if mergeId cell \<noteq> [] then
                 mapCells (\<lambda>c. if mergeId c = mergeId cell then c\<lparr>isBlank := b\<rparr> else c) rows1
               else rows1)"

definition blankSelectedCells :: "widget \<Rightarrow> widget" where
  "blankSelectedCells w =
     (if selectedCells w = [] then w
      else resetDragState
             (w\<lparr>tableRows := foldl (blankStep True (computeMergeSpans (tableRows w))) (tableRows w) (selectedCells w),
                 selectedCells := [], isSelectionMode := False\<rparr>))"

definition unblankSelectedCells :: "widget \<Rightarrow> widget" where
  "unblankSelectedCells w =
     (if selectedCells w = [] then w
      else resetDragState
             (w\<lparr>tableRows := foldl (blankStep False (computeMergeSpans (tableRows w))) (tableRows w) (selectedCells w),
                 selectedCells := [], isSelectionMode := False\<rparr>))"

section \<open>Autofill drag\<close>

definition handleAutofillHandleMouseDown :: "int \<Rightarrow> int \<Rightarrow> widget \<Rightarrow> widget" where
  "handleAutofillHandleMouseDown r c w =
     (case getCell (tableRows w) r c of
        None \<Rightarrow> w
      | Some sourceCell \<Rightarrow>
          if \<not> isInteger (sequenceNumber sourceCell) then w
          else w\<lparr>autofillDrag :=
                    \<lparr>active = True, sourceRow = r, sourceCol = c,
                     sourceValue = parseInt10 (sequenceNumber sourceCell), direction = None,
                     currentRow = r, currentCol = c\<rparr>,
                  autofillPreviewCells := []\<rparr>)"

definition handleCellMouseEnterAutofill :: "int \<Rightarrow> int \<Rightarrow> widget \<Rightarrow> widget" where
  "handleCellMouseEnterAutofill rowIdx colIdx w =
     (if \<not> active (autofillDrag w) then w
      else
        let srcRow = sourceRow (autofillDrag w); srcCol = sourceCol (autofillDrag w);
            dir =
              (if rowIdx = srcRow \<and> colIdx \<noteq> srcCol then Some Horizontal
               else if colIdx = srcCol \<and> rowIdx \<noteq> srcRow then Some Vertical
               else if rowIdx \<noteq> srcRow \<and> colIdx \<noteq> srcCol then
                 (let rowDelta = \<bar>rowIdx - srcRow\<bar>; colDelta = \<bar>colIdx - srcCol\<bar>
                  in if colDelta \<ge> rowDelta then Some Horizontal else Some Vertical)
               else None);
            fills = getAutofillCells (tableRows w) (computeMergeSpans (tableRows w)) srcRow srcCol
                      (if dir = Some Horizontal then srcRow else rowIdx)
                      (if dir = Some Vertical then srcCol else colIdx) dir
        in w\<lparr>autofillDrag := (autofillDrag w)\<lparr>direction := dir, currentRow := rowIdx, currentCol := colIdx\<rparr>,
              autofillPreviewCells := setOf (map (\<lambda>(r, c, v). mkCellId r c) fills)\<rparr>)"

text \<open>\<open>String(value)\<close> for a number that may be \<open>NaN\<close>.\<close>

definition jsStringNum :: "jsnum \<Rightarrow> string" where
  "jsStringNum x = (case x of NaN \<Rightarrow> ''NaN'' | Num v \<Rightarrow> jsString v)"

text \<open>One step of the \<open>forEach\<close> over the cells to fill, in the updater of the commit.\<close>

definition fillStep :: "TableRow list \<Rightarrow> fillCell \<Rightarrow> TableRow list" where
  "fillStep rws fc =
     (case fc of (r, c, v) \<Rightarrow>
        (case getCell rws r c of
           None \<Rightarrow> rws
         | Some cell \<Rightarrow>
             let rows1 = updateCell rws r c (\<lambda>x. x\<lparr>sequenceNumber := jsStringNum v\<rparr>)
             in if isMerged cell \<and> mergeId cell \<noteq> [] then
                  mapCells (\<lambda>x. if mergeId x = mergeId cell then x\<lparr>sequenceNumber := jsStringNum v\<rparr> else x) rows1
                else rows1))"

definition handleAutofillMouseUp :: "widget \<Rightarrow> widget" where
  "handleAutofillMouseUp w =
     (if \<not> active (autofillDrag w) then w
      else
        let d = autofillDrag w;
            tgtRow = (if direction d = Some Horizontal then sourceRow d else currentRow d);
            tgtCol = (if direction d = Some Vertical then sourceCol d else currentCol d);
            fillCells = getAutofillCells (tableRows w) (computeMergeSpans (tableRows w))
                          (sourceRow d) (sourceCol d) tgtRow tgtCol (direction d)
        in w\<lparr>tableRows := (if fillCells \<noteq> [] then foldl fillStep (tableRows w) fillCells else tableRows w),
              autofillDrag := idleDrag, autofillPreviewCells := []\<rparr>)"

subsection \<open>The propagation invariant as the specification words it\<close>

text \<open>
  Two cells share a merge identifier when they carry the same non-empty \<open>mergeId\<close>; the
  grid is consistent when any two such cells agree on value, blocked flag and blank flag.
\<close>

definition sameFields :: "CellObject \<Rightarrow> CellObject \<Rightarrow> bool" where
  "sameFields a b =
     (sequenceNumber a = sequenceNumber b \<and> isBlocked a = isBlocked b \<and> isBlank a = isBlank b)"

definition groupsConsistent :: "TableRow list \<Rightarrow> bool" where
  "groupsConsistent rws =
     (let tagged = filter (\<lambda>a. mergeId a \<noteq> []) (allCells rws)
      in list_all (\<lambda>a. list_all (\<lambda>b. mergeId a = mergeId b \<longrightarrow> sameFields a b) tagged) tagged)"

text \<open>The data model ties the two merge tags of a cell: \<open>isMerged\<close> holds exactly when \<open>mergeId\<close> is not empty.\<close>

definition tagsAgree :: "TableRow list \<Rightarrow> bool" where
  "tagsAgree g = list_all (\<lambda>c. isMerged c = (mergeId c \<noteq> [])) (allCells g)"

subsection \<open>Merging as the specification words it\<close>

text \<open>
  The bounding rectangle of a non-empty list of selected positions: smallest and largest
  row, smallest and largest column.
\<close>

definition boundingBox :: "(int \<times> int) list \<Rightarrow> int \<times> int \<times> int \<times> int" where
  "boundingBox ps =
     (Min (set (map fst ps)), Max (set (map fst ps)), Min (set (map snd ps)), Max (set (map snd ps)))"

definition inBox :: "int \<times> int \<times> int \<times> int \<Rightarrow> int \<times> int \<Rightarrow> bool" where
  "inBox box p = (case box of (r1, r2, c1, c2) \<Rightarrow> r1 \<le> fst p \<and> fst p \<le> r2 \<and> c1 \<le> snd p \<and> snd p \<le> c2)"

text \<open>
  A position of the rectangle is covered when its identifier is selected, or when its
  cell belongs to a merge group whose anchor cell is selected.
\<close>

definition specCovered :: "widget \<Rightarrow> int \<times> int \<Rightarrow> bool" where
  "specCovered w p =
     (mkCellId (fst p) (snd p) \<in> set (selectedCells w) \<or>
      (case getCell (tableRows w) (fst p) (snd p) of
         None \<Rightarrow> False
       | Some cell \<Rightarrow>
           isMerged cell \<and> mergeId cell \<noteq> [] \<and>
           (case computeMergeSpans (tableRows w) (mergeId cell) of
              None \<Rightarrow> False
            | Some span \<Rightarrow> mkCellId (anchorRow span) (anchorCol span) \<in> set (selectedCells w))))"

definition specMergeValid :: "widget \<Rightarrow> (int \<times> int) list \<Rightarrow> bool" where
  "specMergeValid w ps =
     (case boundingBox ps of (r1, r2, c1, c2) \<Rightarrow>
        list_all (\<lambda>r. list_all (\<lambda>c. specCovered w (r, c)) [c1..c2]) [r1..r2])"

text \<open>
  A merge identifier is touched by a list of positions when the cell at one of them is
  merged and carries it; \<open>clearMerge\<close> takes a cell out of its group.
\<close>

definition clearMerge :: "CellObject \<Rightarrow> CellObject" where
  "clearMerge c = c\<lparr>isMerged := False, mergeId := []\<rparr>"

definition touchedBy :: "TableRow list \<Rightarrow> (int \<times> int) list \<Rightarrow> string \<Rightarrow> bool" where
  "touchedBy g ps m =
     list_ex (\<lambda>p. case getCell g (fst p) (snd p) of
                      None \<Rightarrow> False
                    | Some cell \<Rightarrow> isMerged cell \<and> mergeId cell \<noteq> [] \<and> mergeId cell = m) ps"

section \<open>Creating and growing the grid\<close>


definition jsLe :: "jsnum \<Rightarrow> int \<Rightarrow> bool" where
  "jsLe x k = (case x of NaN \<Rightarrow> False | Num v \<Rightarrow> v \<le> k)"


text \<open>The length that \<open>Array.from({length: x})\<close> uses: \<open>NaN\<close> counts as 0.\<close>

definition arrayLength :: "jsnum \<Rightarrow> int" where
  "arrayLength x = (case x of NaN \<Rightarrow> 0 | Num v \<Rightarrow> v)"

definition createNewTable :: "jsnum \<Rightarrow> jsnum \<Rightarrow> widget \<Rightarrow> widget" where
  "createNewTable rws cols w =
     (if jsLe rws 0 \<or> jsLe cols 0 then w
      else w\<lparr>tableRows := newTableRows (arrayLength rws) (arrayLength cols),
              selectedCells := [], isSelectionMode := False, dataLoaded := True\<rparr>)"






section \<open>Loading a snapshot\<close>

text \<open>
  What \<open>JSON.parse\<close> returns for a snapshot, as far as the loader looks at it.  A property
  that is absent is \<open>None\<close>.
\<close>

record CellJson =
  j_sequenceNumber :: "string option"
  j_isBlocked :: "bool option"
  j_isMerged :: "bool option"
  j_mergeId :: "string option"
  j_isBlank :: "bool option"
  j_rowIndex :: "int option"
  j_columnIndex :: "int option"

record RowJson =
  j_row_rowIndex :: "int option"
  j_cells :: "CellJson list option"

record TableJson =
  j_rows :: "int option"
  j_columns :: "int option"
  j_tableRows :: "RowJson list option"

text \<open>
  The attribute value: nothing (absent or the empty string), a string that \<open>JSON.parse\<close>
  rejects, or a parsed snapshot.
\<close>

datatype incoming = NoData | Unparsable | Parsed TableJson

text \<open>\<open>cIdx\<close> is the array index of the first cell of the list, counted from 0.\<close>

fun validateCells :: "int \<Rightarrow> int \<Rightarrow> CellJson list \<Rightarrow> CellObject list" where
  "validateCells rowIdx cIdx [] = []"
| "validateCells rowIdx cIdx (cell # cs) =
     (let colIndex = cIdx + 1
      in \<lparr>cell_id = mkCellId rowIdx colIndex,
           sequenceNumber = (case j_sequenceNumber cell of None \<Rightarrow> ''-'' | Some s \<Rightarrow> if s = [] then ''-'' else s),
           isBlocked = (case j_isBlocked cell of None \<Rightarrow> False | Some b \<Rightarrow> b),
           isMerged = (case j_isMerged cell of None \<Rightarrow> False | Some b \<Rightarrow> b),
           mergeId = (case j_mergeId cell of None \<Rightarrow> [] | Some m \<Rightarrow> m),
           isBlank = (case j_isBlank cell of None \<Rightarrow> False | Some b \<Rightarrow> b),
           rowIndex = rowIdx, columnIndex = colIndex\<rparr>
         # validateCells rowIdx (cIdx + 1) cs)"

text \<open>
  \<open>row.cells.map\<close> throws a \<open>TypeError\<close> when a row has no \<open>cells\<close>; the result is
  \<open>None\<close> then.
\<close>

fun validateRows :: "int \<Rightarrow> RowJson list \<Rightarrow> TableRow list option" where
  "validateRows idx [] = Some []"
| "validateRows idx (rw # rest) =
     (let rowIdx = idx + 1
      in case j_cells rw of
           None \<Rightarrow> None
         | Some cs \<Rightarrow>
             (case validateRows (idx + 1) rest of
                None \<Rightarrow> None
              | Some rs \<Rightarrow>
                  Some (\<lparr>row_id = mkRowId rowIdx, row_rowIndex = rowIdx, cells = validateCells rowIdx 0 cs\<rparr> # rs)))"

text \<open>
  The load effect.  \<open>saving\<close> is \<open>isSaving\<close>, \<open>echo\<close> says that the incoming string is the
  non-empty string saved last.  An exception thrown inside the \<open>try\<close> block is caught and
  logged, and no state has been set before it.
\<close>

definition loadEffect :: "bool \<Rightarrow> bool \<Rightarrow> incoming \<Rightarrow> widget \<Rightarrow> widget" where
  "loadEffect saving echo inc w =
     (if saving then w
      else if echo then w
      else case inc of
             NoData \<Rightarrow> w
           | Unparsable \<Rightarrow> w
           | Parsed tableData \<Rightarrow>
               (case j_tableRows tableData of
                  None \<Rightarrow> w
                | Some trs \<Rightarrow>
                    (case (j_rows tableData, j_columns tableData) of
                       (Some n, Some m) \<Rightarrow>
                         if n > 0 \<and> m > 0 then
                           (case validateRows 0 trs of
                              None \<Rightarrow> w
                            | Some validatedRows \<Rightarrow>
                                w\<lparr>rowCount := Num n, columnCount := Num m, tableRows := validatedRows,
                                  selectedCells := [], isSelectionMode := False, dataLoaded := True\<rparr>)
                         else w
                     | _ \<Rightarrow> w)))"


subsection \<open>Dimensions and snapshots as the specification words them\<close>




section \<open>Example grids\<close>

text \<open>
  One row of two cells that form one blocked merge group with anchor (1,1): the grid that
  results from blocking (1,1) on a fresh grid of one row and two columns and merging the
  two cells.
\<close>

definition mergedPairRow :: "TableRow" where
  "mergedPairRow = \<lparr>row_id = mkRowId 1, row_rowIndex = 1,
     cells = [(defaultCell 1 1)\<lparr>isBlocked := True, isMerged := True, mergeId := createMergeId 1 1 1 2\<rparr>,
              (defaultCell 1 2)\<lparr>isBlocked := True, isMerged := True, mergeId := createMergeId 1 1 1 2\<rparr>]\<rparr>"




text \<open>
  Pointer gestures as sequences of events, with selection enabled and the pointer not on an
  input element: a click on one cell (press, release, click), a drag from one cell to
  another (press, enter, release), toggling the blocked flag of a cell and typing a value
  into a cell.
\<close>

definition clickGesture :: "bool \<Rightarrow> int \<Rightarrow> int \<Rightarrow> widget \<Rightarrow> widget" where
  "clickGesture shiftKey r c w =
     handleCellClick True False r c (onMouseUp (handleCellMouseDown True False shiftKey r c w))"

definition dragGesture :: "int \<Rightarrow> int \<Rightarrow> int \<Rightarrow> int \<Rightarrow> widget \<Rightarrow> widget" where
  "dragGesture r c r' c' w = onMouseUp (handleCellMouseEnter r' c' (handleCellMouseDown True False False r c w))"

definition toggleBlocked :: "int \<Rightarrow> int \<Rightarrow> widget \<Rightarrow> widget" where
  "toggleBlocked r c w = w\<lparr>tableRows := handleCheckboxChange r c (tableRows w)\<rparr>"

definition typeValue :: "int \<Rightarrow> int \<Rightarrow> string \<Rightarrow> widget \<Rightarrow> widget" where
  "typeValue r c v w = w\<lparr>tableRows := handleCellValueChange r c v (tableRows w)\<rparr>"

text \<open>An autofill drag on a fresh 3 by 3 grid whose source is (2,2).\<close>

definition dragFrom22 :: widget where
  "dragFrom22 = (initialWidget (Num 3) (Num 3))
     \<lparr>tableRows := newTableRows 3 3,
      autofillDrag := \<lparr>active = True, sourceRow = 2, sourceCol = 2, sourceValue = Num 7,
                        direction = None, currentRow = 2, currentCol = 2\<rparr>\<rparr>"


text \<open>
  A snapshot of one row and two cells that carries wrong indices; its first cell has no
  other property, its second cell is blocked and holds the value 4.
\<close>

definition snapshotCellA :: CellJson where
  "snapshotCellA = \<lparr>j_sequenceNumber = None, j_isBlocked = None, j_isMerged = None, j_mergeId = None,
     j_isBlank = None, j_rowIndex = Some 9, j_columnIndex = Some 9\<rparr>"



text \<open>
  A session on a fresh 3 by 3 grid: the user drags from (1,1) to (1,2), releases, merges
  the two cells, then presses on the merged cell (1,1) and drags to (2,2).
\<close>

definition fresh33 :: widget where
  "fresh33 = createNewTable (Num 3) (Num 3) (initialWidget (Num 3) (Num 3))"

definition mergedTop :: widget where
  "mergedTop = snd (mergeCells (dragGesture 1 1 1 2 fresh33))"

definition pressedOnMerged :: widget where
  "pressedOnMerged = handleCellMouseDown True False False 1 1 mergedTop"

definition draggedOverMerged :: widget where
  "draggedOverMerged = handleCellMouseEnter 2 2 pressedOnMerged"

text \<open>
  A session on a fresh grid of 11 rows and 12 columns: the user types 5 into (11,1) and 7
  into (1,11), selects (11,1) and (11,2) by a drag and merges them, then selects (1,11)
  and (1,12) by a drag and merges them.
\<close>

definition fresh1112 :: widget where
  "fresh1112 = createNewTable (Num 11) (Num 12) (initialWidget (Num 11) (Num 12))"

definition typed1112 :: widget where
  "typed1112 = typeValue 1 11 ''7'' (typeValue 11 1 ''5'' fresh1112)"

definition bottomMerged :: widget where
  "bottomMerged = snd (mergeCells (dragGesture 11 1 11 2 typed1112))"

definition topSelected :: widget where
  "topSelected = dragGesture 1 11 1 12 bottomMerged"

definition bothMerged :: widget where
  "bothMerged = snd (mergeCells topSelected)"

text \<open>
  On the fresh 3 by 3 grid the user clicks (1,1) and then, holding shift, (1,2) and (2,1);
  a fourth click with shift on (2,2) completes the square.
\<close>

definition singleSelected :: widget where
  "singleSelected = clickGesture False 1 1 fresh33"

definition cornerSelected :: widget where
  "cornerSelected = clickGesture True 2 1 (clickGesture True 1 2 singleSelected)"

definition squareSelected :: widget where
  "squareSelected = clickGesture True 2 2 cornerSelected"

text \<open>
  With (1,1) and (1,2) merged, the user clicks the anchor (1,1) and then, holding shift,
  (2,1) and (2,2): the hidden cell (1,2) of the rectangle is not selected, its anchor is.
\<close>

definition anchorSelected :: widget where
  "anchorSelected = clickGesture True 2 2 (clickGesture True 2 1 (clickGesture False 1 1 mergedTop))"

text \<open>
  The user types 9 into (1,1) of the fresh 3 by 3 grid, merges the whole first row by a
  drag from (1,1) to (1,3), and then clicks (1,1) and, holding shift, (2,1).
\<close>

definition rowMerged :: widget where
  "rowMerged = snd (mergeCells (dragGesture 1 1 1 3 (typeValue 1 1 ''9'' fresh33)))"

definition columnSelected :: widget where
  "columnSelected = clickGesture True 2 1 (clickGesture False 1 1 rowMerged)"

text \<open>
  A snapshot of one row in which (1,1) holds 5 and the cells (1,2) and (1,3) carry the
  merge identifier \<open>x\<close> without being marked merged, loaded into the component; then an
  autofill drag from (1,1) to (1,2) is committed.
\<close>

definition snapshotUntagged :: TableJson where
  "snapshotUntagged = \<lparr>j_rows = Some 1, j_columns = Some 3,
     j_tableRows = Some [\<lparr>j_row_rowIndex = Some 1, j_cells = Some
       [snapshotCellA\<lparr>j_sequenceNumber := Some ''5''\<rparr>,
        snapshotCellA\<lparr>j_mergeId := Some ''x''\<rparr>,
        snapshotCellA\<lparr>j_mergeId := Some ''x''\<rparr>]\<rparr>]\<rparr>"

definition untaggedLoaded :: widget where
  "untaggedLoaded = loadEffect False False (Parsed snapshotUntagged) (initialWidget (Num 3) (Num 3))"

definition untaggedFilled :: widget where
  "untaggedFilled =
     handleAutofillMouseUp (handleCellMouseEnterAutofill 1 2 (handleAutofillHandleMouseDown 1 1 untaggedLoaded))"

section \<open>Identifiers can be read back\<close>

lemma digitChar_props: "d < 10 \<Longrightarrow> isDigit (digitChar d) \<and> digitVal (digitChar d) = int d"
proof -
  assume "d < 10"
  then have "d \<in> {0,1,2,3,4,5,6,7,8,9}" by auto
  then show ?thesis
    by (auto simp: digitChar_def isDigit_def digitVal_def)
qed

lemma natToDigits_all_digits: "list_all isDigit (natToDigits n)"
proof (induction n rule: natToDigits.induct)
  case (1 n)
  show ?case
  proof (cases "n < 10")
    case True
    then show ?thesis by (subst natToDigits.simps) (simp add: digitChar_props)
  next
    case False
    then have "list_all isDigit (natToDigits (n div 10))" using 1 by simp
    moreover have "isDigit (digitChar (n mod 10))" by (simp add: digitChar_props)
    ultimately show ?thesis using False by (subst natToDigits.simps) simp
  qed
qed

lemma natToDigits_nonempty: "natToDigits n \<noteq> []"
  by (subst natToDigits.simps) simp

lemma digitsValue_snoc: "digitsValue (ds @ [d]) = 10 * digitsValue ds + digitVal d"
  by (simp add: digitsValue_def)

lemma digitsValue_natToDigits: "digitsValue (natToDigits n) = int n"
proof (induction n rule: natToDigits.induct)
  case (1 n)
  show ?case
  proof (cases "n < 10")
    case True
    then show ?thesis
      by (subst natToDigits.simps) (simp add: digitsValue_def digitChar_props)
  next
    case False
    then have "digitsValue (natToDigits (n div 10)) = int (n div 10)" using 1 by simp
    moreover have "10 * int (n div 10) + int (n mod 10) = int n"
      by (metis mult.commute of_nat_add of_nat_mult of_nat_numeral div_mult_mod_eq)
    ultimately show ?thesis using False
      by (subst natToDigits.simps) (simp add: digitsValue_snoc digitChar_props)
  qed
qed

lemma parseDigits_natToDigits: "parseDigits (natToDigits n) = Num (int n)"
proof -
  have tw: "takeWhile isDigit (natToDigits n) = natToDigits n"
    using natToDigits_all_digits [of n] by (simp add: list_all_iff takeWhile_eq_all_conv)
  show ?thesis
    unfolding parseDigits_def Let_def tw
    by (simp add: natToDigits_nonempty digitsValue_natToDigits)
qed

lemma all_digits_take2: "list_all isDigit s \<Longrightarrow> take 2 s \<noteq> ''0x'' \<and> take 2 s \<noteq> ''0X''"
proof (cases s)
  case Nil
  then show ?thesis by simp
next
  case (Cons a t)
  assume d: "list_all isDigit s"
  show ?thesis
  proof (cases t)
    case Nil
    with Cons show ?thesis by simp
  next
    case (Cons b u)
    with \<open>s = a # t\<close> d have "isDigit b" by simp
    then have "b \<noteq> CHR ''x''" "b \<noteq> CHR ''X''" by (auto simp: isDigit_def)
    with Cons \<open>s = a # t\<close> show ?thesis by (simp add: numeral_2_eq_2)
  qed
qed

lemma parseUnsigned_natToDigits: "parseUnsigned (natToDigits n) = Num (int n)"
  using all_digits_take2 [OF natToDigits_all_digits, of n]
  by (simp add: parseUnsigned_def parseDigits_natToDigits)

lemma digit_not_special:
  "isDigit ch \<Longrightarrow> \<not> isWhiteSpace ch \<and> ch \<noteq> CHR ''-'' \<and> ch \<noteq> CHR ''+'' \<and> ch \<noteq> CHR ''_''"
  by (auto simp: isDigit_def isWhiteSpace_def)

lemma parseInt_digits_head:
  assumes "list_all isDigit s" "s \<noteq> []"
  shows "parseInt s = parseUnsigned s"
proof -
  obtain a t where s: "s = a # t" using assms(2) by (cases s) auto
  then have "isDigit a" using assms(1) by simp
  then show ?thesis using s digit_not_special [of a] by (simp add: parseInt_def)
qed

lemma parseInt_jsString: "parseInt (jsString i) = Num i"
proof (cases "i < 0")
  case True
  have "\<not> isWhiteSpace CHR ''-''" by (simp add: isWhiteSpace_def)
  then show ?thesis using True
    by (simp add: jsString_def parseInt_def parseUnsigned_natToDigits jsNeg_def)
next
  case False
  then show ?thesis
    using parseInt_digits_head [OF natToDigits_all_digits natToDigits_nonempty, of "nat i"]
    by (simp add: jsString_def parseUnsigned_natToDigits)
qed

lemma jsString_no_underscore: "CHR ''_'' \<notin> set (jsString i)"
proof -
  have "CHR ''_'' \<notin> set (natToDigits n)" for n
    using natToDigits_all_digits [of n] digit_not_special by (auto simp: list_all_iff)
  then show ?thesis by (simp add: jsString_def)
qed

lemma splitOn_no_sep: "sep \<notin> set s \<Longrightarrow> splitOn sep s = [s]"
  by (induction s) auto

lemma splitOn_append: "sep \<notin> set a \<Longrightarrow> splitOn sep (a @ sep # b) = a # splitOn sep b"
  by (induction a) auto

lemma parseCellId_mkCellId: "parseCellId (mkCellId r c) = (Num r, Num c)"
proof -
  have "removeFirst ''cell_'' (mkCellId r c) = jsString r @ CHR ''_'' # jsString c"
    by (simp add: mkCellId_def)
  moreover have "splitOn CHR ''_'' (jsString r @ CHR ''_'' # jsString c) = [jsString r, jsString c]"
    by (simp add: splitOn_append splitOn_no_sep jsString_no_underscore)
  ultimately show ?thesis
    by (simp add: parseCellId_def parseInt_jsString)
qed

lemma mkCellId_inject: "mkCellId r c = mkCellId r' c' \<longleftrightarrow> r = r' \<and> c = c'"
proof
  assume "mkCellId r c = mkCellId r' c'"
  then have "parseCellId (mkCellId r c) = parseCellId (mkCellId r' c')" by simp
  then show "r = r' \<and> c = c'" by (simp add: parseCellId_mkCellId)
qed simp

text \<open>Every integer that \<open>String\<close> prints passes \<open>isInteger\<close> and is read back by \<open>parseInt\<close>.\<close>

lemma parseInt10_jsString: "parseInt10 (jsString i) = Num i"
proof (cases "i < 0")
  case True
  have "\<not> isWhiteSpace CHR ''-''" by (simp add: isWhiteSpace_def)
  then show ?thesis using True
    by (simp add: jsString_def parseInt10_def parseDigits_natToDigits jsNeg_def)
next
  case False
  obtain a t where s: "natToDigits (nat i) = a # t"
    using natToDigits_nonempty [of "nat i"] by (cases "natToDigits (nat i)") auto
  then have "isDigit a" using natToDigits_all_digits [of "nat i"] by simp
  then have "\<not> isWhiteSpace a" "a \<noteq> CHR ''-''" "a \<noteq> CHR ''+''"
    using digit_not_special [of a] by simp_all
  then have "parseInt10 (a # t) = parseDigits (a # t)"
    by (simp add: parseInt10_def)
  then show ?thesis using False s parseDigits_natToDigits [of "nat i"]
    by (simp add: jsString_def)
qed

lemma trim_id:
  assumes "s \<noteq> []" "\<not> isWhiteSpace (hd s)" "\<not> isWhiteSpace (last s)"
  shows "trim s = s"
proof -
  have 1: "dropWhile isWhiteSpace s = s" using assms(1,2) by (cases s) auto
  have "rev s \<noteq> []" "\<not> isWhiteSpace (hd (rev s))" using assms(1,3) by (simp_all add: hd_rev)
  then have 2: "dropWhile isWhiteSpace (rev s) = rev s" by (cases "rev s") auto
  show ?thesis by (simp add: trim_def 1 2)
qed

lemma isInteger_jsString: "isInteger (jsString i)"
proof -
  let ?d = "natToDigits (nat \<bar>i\<bar>)"
  have d: "list_all isDigit ?d" "?d \<noteq> []" by (rule natToDigits_all_digits, rule natToDigits_nonempty)
  then have "isDigit (hd ?d)" "isDigit (last ?d)" by (auto simp: list_all_iff)
  then have ws: "\<not> isWhiteSpace (hd ?d)" "\<not> isWhiteSpace (last ?d)" "hd ?d \<noteq> CHR ''-''"
    using digit_not_special by blast+
  show ?thesis
  proof (cases "i < 0")
    case True
    then have j: "jsString i = CHR ''-'' # ?d" by (simp add: jsString_def abs_if)
    have "\<not> isWhiteSpace CHR ''-''" by (simp add: isWhiteSpace_def)
    then have "trim (CHR ''-'' # ?d) = CHR ''-'' # ?d"
      using ws d(2) by (intro trim_id) simp_all
    then show ?thesis using d by (simp add: isInteger_def j)
  next
    case False
    then have j: "jsString i = ?d" by (simp add: jsString_def abs_if)
    have "trim ?d = ?d" using ws d(2) by (intro trim_id) simp_all
    moreover have "matchesInteger ?d" using d ws(3) by (cases ?d) auto
    moreover have "?d \<noteq> ''-''" using d(2) ws(3) by (cases ?d) auto
    ultimately show ?thesis using d by (simp add: isInteger_def j)
  qed
qed


section \<open>Insertion-ordered sets\<close>

lemma set_setAdd: "set (setAdd s x) = insert x (set s)"
  by (auto simp: setAdd_def)

lemma set_foldl_setAdd: "set (foldl setAdd s xs) = set s \<union> set xs"
  by (induction xs arbitrary: s) (auto simp: set_setAdd)

lemma set_setOf: "set (setOf xs) = set xs"
  by (simp add: setOf_def set_foldl_setAdd)

lemma set_setDelete: "set (setDelete s x) = set s - {x}"
  by (simp add: setDelete_def)


section \<open>Lookups after updates\<close>

lemma find_map_pres: "(\<And>x. P (h x) = P x) \<Longrightarrow> find P (map h xs) = map_option h (find P xs)"
  by (induction xs) auto

lemma find_updFirst_same: "(\<And>x. P (f x) = P x) \<Longrightarrow> find P (updFirst P f xs) = map_option f (find P xs)"
  by (induction xs) auto

lemma find_updFirst_other:
  "(\<And>x. Q (f x) = Q x) \<Longrightarrow> (\<And>x. P x \<Longrightarrow> \<not> Q x) \<Longrightarrow> find Q (updFirst P f xs) = find Q xs"
  by (induction xs) auto

lemma getCell_mapCells:
  assumes "\<And>x. columnIndex (f x) = columnIndex x"
  shows "getCell (mapCells f g) r c = map_option f (getCell g r c)"
proof -
  have "find (\<lambda>rw. row_rowIndex rw = r) (map (\<lambda>rw. rw\<lparr>cells := map f (cells rw)\<rparr>) g)
        = map_option (\<lambda>rw. rw\<lparr>cells := map f (cells rw)\<rparr>) (find (\<lambda>rw. row_rowIndex rw = r) g)"
    by (rule find_map_pres) simp
  moreover have "find (\<lambda>cell. columnIndex cell = c) (map f cs) = map_option f (find (\<lambda>cell. columnIndex cell = c) cs)" for cs
    by (rule find_map_pres) (simp add: assms)
  ultimately show ?thesis
    by (simp add: getCell_def mapCells_def split: option.splits)
qed

lemma getCell_updateCell:
  assumes "\<And>x. columnIndex (f x) = columnIndex x"
  shows "getCell (updateCell g r c f) r' c' =
           (if r' = r \<and> c' = c then map_option f (getCell g r c) else getCell g r' c')"
proof (cases "r' = r")
  case True
  let ?F = "\<lambda>rw. rw\<lparr>cells := updFirst (\<lambda>cell. columnIndex cell = c) f (cells rw)\<rparr>"
  have rowf: "find (\<lambda>rw. row_rowIndex rw = r) (updFirst (\<lambda>rw. row_rowIndex rw = r) ?F g)
        = map_option ?F (find (\<lambda>rw. row_rowIndex rw = r) g)"
    by (rule find_updFirst_same) simp
  show ?thesis
  proof (cases "c' = c")
    case True
    have "find (\<lambda>cell. columnIndex cell = c) (updFirst (\<lambda>cell. columnIndex cell = c) f cs)
            = map_option f (find (\<lambda>cell. columnIndex cell = c) cs)" for cs
      by (rule find_updFirst_same) (simp add: assms)
    then show ?thesis using \<open>r' = r\<close> True rowf
      by (simp add: getCell_def updateCell_def split: option.splits)
  next
    case False
    have "find (\<lambda>cell. columnIndex cell = c') (updFirst (\<lambda>cell. columnIndex cell = c) f cs)
            = find (\<lambda>cell. columnIndex cell = c') cs" for cs
      by (rule find_updFirst_other) (use False in \<open>simp_all add: assms\<close>)
    then show ?thesis using \<open>r' = r\<close> False rowf
      by (simp add: getCell_def updateCell_def split: option.splits)
  qed
next
  case False
  let ?F = "\<lambda>rw. rw\<lparr>cells := updFirst (\<lambda>cell. columnIndex cell = c) f (cells rw)\<rparr>"
  have "find (\<lambda>rw. row_rowIndex rw = r') (updFirst (\<lambda>rw. row_rowIndex rw = r) ?F g)
        = find (\<lambda>rw. row_rowIndex rw = r') g"
    by (rule find_updFirst_other) (use False in simp_all)
  then show ?thesis using False by (simp add: getCell_def updateCell_def)
qed

lemma mapCells_comp: "mapCells f (mapCells h g) = mapCells (f \<circ> h) g"
  by (simp add: mapCells_def comp_def)

lemma mapCells_cong: "(\<And>x. f x = h x) \<Longrightarrow> mapCells f g = mapCells h g"
  by (simp add: mapCells_def)

lemma touchedBy_empty_id: "\<not> touchedBy g ps []"
  by (auto simp: touchedBy_def list_ex_iff split: option.splits)

lemma dissolve_closed:
  "foldl dissolveStep g ps = mapCells (\<lambda>c. if touchedBy g ps (mergeId c) then clearMerge c else c) g"
proof (induction ps rule: rev_induct)
  case Nil
  then show ?case by (simp add: touchedBy_def mapCells_def)
next
  case (snoc p ps)
  let ?k = "\<lambda>c. if touchedBy g ps (mergeId c) then clearMerge c else c"
  have col: "\<And>x. columnIndex (?k x) = columnIndex x" by (simp add: clearMerge_def)
  have gc: "getCell (mapCells ?k g) (fst p) (snd p) = map_option ?k (getCell g (fst p) (snd p))"
    by (rule getCell_mapCells) (rule col)
  have t: "touchedBy g (ps @ [p]) m \<longleftrightarrow> touchedBy g ps m \<or>
       (case getCell g (fst p) (snd p) of None \<Rightarrow> False
        | Some cell \<Rightarrow> isMerged cell \<and> mergeId cell \<noteq> [] \<and> mergeId cell = m)" for m
    by (simp add: touchedBy_def)
  have step: "foldl dissolveStep g (ps @ [p]) = dissolveStep (mapCells ?k g) p"
    using snoc by simp
  show ?case
  proof (cases "getCell g (fst p) (snd p)")
    case None
    then show ?thesis unfolding step using gc t by (simp add: dissolveStep_def)
  next
    case (Some cell)
    show ?thesis
    proof (cases "isMerged cell \<and> mergeId cell \<noteq> [] \<and> \<not> touchedBy g ps (mergeId cell)")
      case True
      have "foldl dissolveStep g (ps @ [p]) =
              mapCells (\<lambda>c2. if mergeId c2 = mergeId cell then c2\<lparr>isMerged := False, mergeId := []\<rparr> else c2)
                (mapCells ?k g)"
        unfolding step using gc Some True by (simp add: dissolveStep_def)
      also have "\<dots> = mapCells (\<lambda>c. if touchedBy g (ps @ [p]) (mergeId c) then clearMerge c else c) g"
        unfolding mapCells_comp
        by (rule mapCells_cong) (use True Some in \<open>auto simp: t clearMerge_def\<close>)
      finally show ?thesis .
    next
      case False
      then have same: "touchedBy g (ps @ [p]) m = touchedBy g ps m" for m
        using Some by (auto simp: t)
      have nm: "\<not> (isMerged (?k cell) \<and> mergeId (?k cell) \<noteq> [])"
        using False by (auto simp: clearMerge_def)
      have gk: "getCell (mapCells ?k g) (fst p) (snd p) = Some (?k cell)"
        using gc Some by simp
      have "foldl dissolveStep g (ps @ [p]) = mapCells ?k g"
        unfolding step by (simp only: dissolveStep_def gk option.simps nm if_False)
      then show ?thesis by (simp add: same)
    qed
  qed
qed

lemma assign_fold:
  assumes "\<And>x. columnIndex (f x) = columnIndex x" and "\<And>x. f (f x) = f x"
  shows "getCell (foldl (\<lambda>rws p. updateCell rws (fst p) (snd p) f) g ps) r c =
           (if (r, c) \<in> set ps then map_option f (getCell g r c) else getCell g r c)"
proof (induction ps rule: rev_induct)
  case Nil
  then show ?case by simp
next
  case (snoc p ps)
  show ?case
    using snoc assms(2)
    by (cases p) (auto simp: getCell_updateCell [OF assms(1)] option.map_comp comp_def split: option.splits)
qed


section \<open>The bounding box and the validation loop\<close>

lemma numbers_Num: "numbers (map Num xs) = Some xs"
  by (induction xs) auto

lemma mathMin_Min: "mathMin x xs = Min (set (x # xs))"
  unfolding mathMin_def by (rule Min.set_eq_fold [symmetric])

lemma mathMax_Max: "mathMax x xs = Max (set (x # xs))"
  unfolding mathMax_def by (rule Max.set_eq_fold [symmetric])

lemma mathMinJs_Num: "xs \<noteq> [] \<Longrightarrow> mathMinJs (map Num xs) = Num (Min (set xs))"
  by (cases xs) (simp_all add: mathMinJs_def numbers_Num mathMin_Min del: set_simps)

lemma mathMaxJs_Num: "xs \<noteq> [] \<Longrightarrow> mathMaxJs (map Num xs) = Num (Max (set xs))"
  by (cases xs) (simp_all add: mathMaxJs_def numbers_Num mathMax_Max del: set_simps)

lemma selectionBounds_ids:
  assumes "ps \<noteq> []"
  shows "selectionBounds (map (\<lambda>p. mkCellId (fst p) (snd p)) ps) = Some (boundingBox ps)"
proof -
  have f: "map fst (map parseCellId (map (\<lambda>p. mkCellId (fst p) (snd p)) ps)) = map Num (map fst ps)"
    by (simp add: parseCellId_mkCellId comp_def)
  have s: "map snd (map parseCellId (map (\<lambda>p. mkCellId (fst p) (snd p)) ps)) = map Num (map snd ps)"
    by (simp add: parseCellId_mkCellId comp_def)
  have ne: "map fst ps \<noteq> []" "map snd ps \<noteq> []" using assms by simp_all
  show ?thesis
    unfolding selectionBounds_def Let_def f s mathMinJs_Num [OF ne(1)] mathMaxJs_Num [OF ne(1)]
      mathMinJs_Num [OF ne(2)] mathMaxJs_Num [OF ne(2)]
    by (simp add: boundingBox_def)
qed

lemma set_rectPositions:
  "set (rectPositions r1 r2 c1 c2) = {p. inBox (r1, r2, c1, c2) p}"
  by (auto simp: rectPositions_def inBox_def)

lemma rectCellOk_mkCellId: "rectCellOk w (mkCellId r c) = specCovered w (r, c)"
  by (auto simp: rectCellOk_def specCovered_def parseCellId_mkCellId getCellJs_def split: option.splits)

lemma valid_iff:
  "list_all (rectCellOk w) (rectangleCellIds r1 r2 c1 c2) =
     list_all (\<lambda>r. list_all (\<lambda>c. specCovered w (r, c)) [c1..c2]) [r1..r2]"
  by (auto simp: rectangleCellIds_def set_setOf list_all_iff rectCellOk_mkCellId set_rectPositions inBox_def)

lemma specMergeValid_iff:
  "specMergeValid w ps \<longleftrightarrow> (\<forall>p. inBox (boundingBox ps) p \<longrightarrow> specCovered w p)"
  by (cases "boundingBox ps") (auto simp: specMergeValid_def list_all_iff inBox_def)


lemma mergeCells_cases:
  assumes "selectedCells w = map (\<lambda>p. mkCellId (fst p) (snd p)) ps"
  shows "mergeCells w =
      (if length ps < 2 then (None, w)
       else case boundingBox ps of (r1, r2, c1, c2) \<Rightarrow>
         if \<not> specMergeValid w ps then (Some ''Please select a rectangular area to merge'', w)
         else (None, resetDragState
                 (w\<lparr>tableRows := mergeRows r1 r2 c1 c2 (tableRows w), selectedCells := [],
                     isSelectionMode := False\<rparr>)))"
proof (cases "length ps < 2")
  case True
  then show ?thesis using assms by (simp add: mergeCells_def)
next
  case False
  then have ne: "ps \<noteq> []" by auto
  obtain r1 r2 c1 c2 where bb: "boundingBox ps = (r1, r2, c1, c2)" by (cases "boundingBox ps") auto
  show ?thesis
    using False assms
    by (simp add: mergeCells_def selectionBounds_ids [OF ne] bb valid_iff specMergeValid_def Let_def)
qed

section \<open>Operations that keep merge groups consistent\<close>

lemma groupsConsistent_iff:
  "groupsConsistent g \<longleftrightarrow>
     (\<forall>a \<in> set (allCells g). \<forall>b \<in> set (allCells g).
        mergeId a \<noteq> [] \<and> mergeId a = mergeId b \<longrightarrow> sameFields a b)"
  by (auto simp: groupsConsistent_def Let_def list_all_iff)

lemma allCells_mapCells: "allCells (mapCells f g) = map f (allCells g)"
  by (induction g) (simp_all add: allCells_def mapCells_def)

lemma updFirst_split:
  "find P xs = Some x \<Longrightarrow> \<exists>ys zs. xs = ys @ x # zs \<and> updFirst P f xs = ys @ f x # zs"
proof (induction xs)
  case Nil
  then show ?case by simp
next
  case (Cons a xs)
  show ?case
  proof (cases "P a")
    case True
    with Cons.prems have "a = x" by simp
    with True show ?thesis by (intro exI [of _ "[]"] exI [of _ xs]) simp
  next
    case False
    with Cons obtain ys zs where "xs = ys @ x # zs" "updFirst P f xs = ys @ f x # zs" by auto
    with False show ?thesis by (intro exI [of _ "a # ys"] exI [of _ zs]) simp
  qed
qed

lemma allCells_updateCell:
  assumes "getCell g r c = Some t"
  shows "\<exists>ys zs. allCells g = ys @ t # zs \<and> allCells (updateCell g r c f) = ys @ f t # zs"
proof -
  from assms obtain rw where rw: "find (\<lambda>rw. row_rowIndex rw = r) g = Some rw"
      and t: "find (\<lambda>cell. columnIndex cell = c) (cells rw) = Some t"
    by (auto simp: getCell_def split: option.splits)
  let ?F = "\<lambda>rw. rw\<lparr>cells := updFirst (\<lambda>cell. columnIndex cell = c) f (cells rw)\<rparr>"
  from updFirst_split [OF rw, of ?F] obtain rs1 rs2 where
    g: "g = rs1 @ rw # rs2" and g': "updateCell g r c f = rs1 @ ?F rw # rs2"
    by (auto simp: updateCell_def)
  from updFirst_split [OF t, of f] obtain cs1 cs2 where
    cs: "cells rw = cs1 @ t # cs2" and cs': "updFirst (\<lambda>cell. columnIndex cell = c) f (cells rw) = cs1 @ f t # cs2"
    by auto
  have "allCells g = (allCells rs1 @ cs1) @ t # (cs2 @ allCells rs2)"
    by (subst g) (simp add: allCells_def cs)
  moreover have "allCells (updateCell g r c f) = (allCells rs1 @ cs1) @ f t # (cs2 @ allCells rs2)"
    by (subst g') (simp add: allCells_def cs')
  ultimately show ?thesis by blast
qed

text \<open>The pattern shared by the value, block, blank and fill handlers.\<close>

lemma propagate_consistent:
  assumes cons: "groupsConsistent g"
      and t: "getCell g r c = Some t"
      and mid: "\<And>x. mergeId (u x) = mergeId x"
      and idem: "\<And>x. u (u x) = u x"
      and same: "\<And>a b. sameFields a b \<Longrightarrow> sameFields (u a) (u b)"
  shows "groupsConsistent (mapCells (\<lambda>x. if mergeId x = mergeId t then u x else x) (updateCell g r c u))"
    and "mergeId t = [] \<Longrightarrow> groupsConsistent (updateCell g r c u)"
proof -
  from allCells_updateCell [OF t, of u] obtain ys zs where
    old: "allCells g = ys @ t # zs" and new: "allCells (updateCell g r c u) = ys @ u t # zs"
    by blast
  let ?k = "\<lambda>x. if mergeId x = mergeId t then u x else x"
  have "map ?k (ys @ u t # zs) = map ?k (ys @ t # zs)"
    by (simp add: mid idem)
  then have all: "allCells (mapCells ?k (updateCell g r c u)) = map ?k (allCells g)"
    by (simp add: allCells_mapCells new old)
  have kmid: "\<And>x. mergeId (?k x) = mergeId x" by (simp add: mid)
  show "groupsConsistent (mapCells ?k (updateCell g r c u))"
    unfolding groupsConsistent_iff all
  proof (intro ballI impI)
    fix a b
    assume a: "a \<in> set (map ?k (allCells g))" and b: "b \<in> set (map ?k (allCells g))"
       and m: "mergeId a \<noteq> [] \<and> mergeId a = mergeId b"
    from a obtain a0 where a0: "a0 \<in> set (allCells g)" "a = ?k a0" by auto
    from b obtain b0 where b0: "b0 \<in> set (allCells g)" "b = ?k b0" by auto
    have "mergeId a = mergeId a0" "mergeId b = mergeId b0"
      unfolding a0(2) b0(2) by (rule kmid)+
    with m have m0: "mergeId a0 \<noteq> [] \<and> mergeId a0 = mergeId b0" by auto
    with cons a0 b0 have sf: "sameFields a0 b0" by (auto simp: groupsConsistent_iff)
    show "sameFields a b"
    proof (cases "mergeId a0 = mergeId t")
      case True
      with m0 a0 b0 same [OF sf] show ?thesis by simp
    next
      case False
      with m0 a0 b0 sf show ?thesis by simp
    qed
  qed
  show "groupsConsistent (updateCell g r c u)" if e: "mergeId t = []"
    unfolding groupsConsistent_iff new
  proof (intro ballI impI)
    fix a b
    assume a: "a \<in> set (ys @ u t # zs)" and b: "b \<in> set (ys @ u t # zs)"
       and m: "mergeId a \<noteq> [] \<and> mergeId a = mergeId b"
    from m e mid have "a \<noteq> u t" "b \<noteq> u t" by auto
    with a b have "a \<in> set (allCells g)" "b \<in> set (allCells g)" by (auto simp: old)
    with cons m show "sameFields a b" by (auto simp: groupsConsistent_iff)
  qed
qed

lemma handleCellValueChange_consistent:
  assumes "groupsConsistent g"
  shows "groupsConsistent (handleCellValueChange r c v g)"
proof (cases "getCell g r c")
  case None
  then show ?thesis using assms by (simp add: handleCellValueChange_def)
next
  case (Some t)
  note p = propagate_consistent [OF assms Some, of "\<lambda>cell. cell\<lparr>sequenceNumber := v\<rparr>"]
  show ?thesis
    using Some p by (simp add: handleCellValueChange_def Let_def sameFields_def)
qed

lemma handleCheckboxChange_consistent:
  assumes "groupsConsistent g"
  shows "groupsConsistent (handleCheckboxChange r c g)"
proof (cases "getCell g r c")
  case None
  then show ?thesis using assms by (simp add: handleCheckboxChange_def)
next
  case (Some t)
  note p = propagate_consistent [OF assms Some, of "\<lambda>cell. cell\<lparr>isBlocked := \<not> isBlocked t\<rparr>"]
  show ?thesis
    using Some p by (simp add: handleCheckboxChange_def Let_def sameFields_def)
qed

lemma clear_consistent:
  assumes "groupsConsistent g"
  shows "groupsConsistent (mapCells (\<lambda>cell. if Q cell then cell\<lparr>isMerged := False, mergeId := []\<rparr> else cell) g)"
  using assms unfolding groupsConsistent_iff allCells_mapCells
  by (auto split: if_splits)

lemma unmergeCells_consistent:
  assumes "groupsConsistent (tableRows w)"
  shows "groupsConsistent (tableRows (unmergeCells w))"
proof (cases "selectedCells w")
  case Nil
  then show ?thesis using assms by (simp add: unmergeCells_def)
next
  case (Cons cid rest)
  have "groupsConsistent (unmergeRows p (tableRows w))" for p
    using assms clear_consistent [OF assms]
    by (auto simp: unmergeRows_def split: option.splits)
  then show ?thesis using Cons by (simp add: unmergeCells_def resetDragState_def)
qed

lemma blankStep_consistent:
  assumes "groupsConsistent g"
  shows "groupsConsistent (blankStep b spans g cid)"
proof (cases "parseCellId cid")
  case (Pair x y)
  show ?thesis
  proof (cases x)
    case NaN
    with Pair assms show ?thesis by (simp add: blankStep_def getCellJs_def)
  next
    case (Num r)
    note r = this
    show ?thesis
    proof (cases y)
      case NaN
      with Pair r assms show ?thesis by (simp add: blankStep_def getCellJs_def)
    next
      case (Num c)
      show ?thesis
      proof (cases "getCell g r c")
        case None
        with Pair r Num assms show ?thesis by (simp add: blankStep_def getCellJs_def)
      next
        case (Some t)
        note p = propagate_consistent [OF assms Some, of "\<lambda>cell. cell\<lparr>isBlank := b\<rparr>"]
        show ?thesis
          using Pair r Num Some p assms
          by (simp add: blankStep_def getCellJs_def updateCellJs_def Let_def sameFields_def)
      qed
    qed
  qed
qed

lemma foldl_blankStep_consistent:
  "groupsConsistent g \<Longrightarrow> groupsConsistent (foldl (blankStep b spans) g cids)"
  by (induction cids arbitrary: g) (simp_all add: blankStep_consistent)

lemma blank_unblank_consistent:
  assumes "groupsConsistent (tableRows w)"
  shows "groupsConsistent (tableRows (blankSelectedCells w))"
    and "groupsConsistent (tableRows (unblankSelectedCells w))"
  using assms foldl_blankStep_consistent [OF assms]
  by (simp_all add: blankSelectedCells_def unblankSelectedCells_def resetDragState_def)


lemma set_updFirst: "set (updFirst P f xs) \<subseteq> set xs \<union> f ` set xs"
  by (induction xs) auto

lemma set_allCells_updateCell:
  "set (allCells (updateCell g r c f)) \<subseteq> set (allCells g) \<union> f ` set (allCells g)"
proof (induction g)
  case Nil
  then show ?case by (simp add: updateCell_def allCells_def)
next
  case (Cons rw g)
  have "set (updFirst (\<lambda>cell. columnIndex cell = c) f (cells rw)) \<subseteq> set (cells rw) \<union> f ` set (cells rw)"
    by (rule set_updFirst)
  with Cons show ?case
    by (auto simp: updateCell_def allCells_def)
qed

lemma fillStep_consistent:
  assumes "groupsConsistent g" and "tagsAgree g"
  shows "groupsConsistent (fillStep g fc) \<and> tagsAgree (fillStep g fc)"
proof -
  obtain r c v where fc: "fc = (r, c, v)" by (cases fc) auto
  let ?u = "\<lambda>x. x\<lparr>sequenceNumber := jsStringNum v\<rparr>"
  show ?thesis
  proof (cases "getCell g r c")
    case None
    then show ?thesis using assms fc by (simp add: fillStep_def)
  next
    case (Some t)
    from allCells_updateCell [OF Some, of ?u] have "t \<in> set (allCells g)" by auto
    with assms(2) have tag: "isMerged t = (mergeId t \<noteq> [])"
      by (auto simp: tagsAgree_def list_all_iff)
    note p = propagate_consistent [OF assms(1) Some, of ?u]
    have c1: "groupsConsistent (fillStep g fc)"
      using Some p tag fc by (simp add: fillStep_def Let_def sameFields_def)
    have sub: "set (allCells (updateCell g r c ?u)) \<subseteq> set (allCells g) \<union> ?u ` set (allCells g)"
      by (rule set_allCells_updateCell)
    have t1: "tagsAgree (updateCell g r c ?u)"
      using assms(2) sub unfolding tagsAgree_def list_all_iff by fastforce
    then have t2: "tagsAgree (mapCells (\<lambda>x. if mergeId x = mergeId t then ?u x else x) (updateCell g r c ?u))"
      unfolding tagsAgree_def list_all_iff allCells_mapCells by auto
    have "tagsAgree (fillStep g fc)"
      using Some fc t1 t2 by (simp add: fillStep_def Let_def)
    with c1 show ?thesis ..
  qed
qed

lemma foldl_fillStep_consistent:
  "groupsConsistent g \<Longrightarrow> tagsAgree g \<Longrightarrow>
     groupsConsistent (foldl fillStep g fcs) \<and> tagsAgree (foldl fillStep g fcs)"
  by (induction fcs arbitrary: g) (simp_all add: fillStep_consistent)

lemma handleAutofillMouseUp_consistent:
  assumes "groupsConsistent (tableRows w)" and "tagsAgree (tableRows w)"
  shows "groupsConsistent (tableRows (handleAutofillMouseUp w))"
  using assms foldl_fillStep_consistent [OF assms]
  by (simp add: handleAutofillMouseUp_def Let_def)

lemma set_allCells_assign:
  "set (allCells (foldl (\<lambda>rws p. updateCell rws (fst p) (snd p) f) g ps))
     \<subseteq> set (allCells g) \<union> f ` set (allCells g)" if "\<And>x. f (f x) = f x"
proof (induction ps rule: rev_induct)
  case Nil
  then show ?case by simp
next
  case (snoc p ps)
  let ?g = "foldl (\<lambda>rws p. updateCell rws (fst p) (snd p) f) g ps"
  have "set (allCells (updateCell ?g (fst p) (snd p) f)) \<subseteq> set (allCells ?g) \<union> f ` set (allCells ?g)"
    by (rule set_allCells_updateCell)
  with snoc that show ?case by fastforce
qed

lemma mergeRows_consistent:
  assumes cons: "groupsConsistent g"
      and fresh: "\<And>c. c \<in> set (allCells g) \<Longrightarrow> mergeId c = createMergeId r1 c1 r2 c2 \<Longrightarrow>
                    touchedBy g (rectPositions r1 r2 c1 c2) (mergeId c)"
      and ne: "createMergeId r1 c1 r2 c2 \<noteq> []"
  shows "groupsConsistent (mergeRows r1 r2 c1 c2 g)"
proof -
  let ?box = "rectPositions r1 r2 c1 c2"
  let ?mid = "createMergeId r1 c1 r2 c2"
  let ?k = "\<lambda>c. if touchedBy g ?box (mergeId c) then clearMerge c else c"
  have rows1: "foldl dissolveStep g ?box = mapCells ?k g" by (rule dissolve_closed)
  show ?thesis
  proof (cases "getCell (mapCells ?k g) r1 c1")
    case None
    then show ?thesis using cons by (simp add: mergeRows_def rows1)
  next
    case (Some tl)
    let ?f = "\<lambda>cell. cell\<lparr>sequenceNumber := sequenceNumber tl, isBlocked := isBlocked tl,
                           isBlank := isBlank tl, isMerged := True, mergeId := ?mid\<rparr>"
    have asg: "assignStep tl ?mid = (\<lambda>rws p. updateCell rws (fst p) (snd p) ?f)"
      by (intro ext) (simp add: assignStep_def)
    have eq: "mergeRows r1 r2 c1 c2 g = foldl (\<lambda>rws p. updateCell rws (fst p) (snd p) ?f) (mapCells ?k g) ?box"
      using Some by (simp add: mergeRows_def rows1 asg)
    have sub: "set (allCells (mergeRows r1 r2 c1 c2 g)) \<subseteq> ?k ` set (allCells g) \<union> ?f ` ?k ` set (allCells g)"
      unfolding eq using set_allCells_assign [of ?f "mapCells ?k g" ?box]
      by (simp add: allCells_mapCells)
    show ?thesis
      unfolding groupsConsistent_iff
    proof (intro ballI impI)
      fix a b
      assume a: "a \<in> set (allCells (mergeRows r1 r2 c1 c2 g))"
         and b: "b \<in> set (allCells (mergeRows r1 r2 c1 c2 g))"
         and m: "mergeId a \<noteq> [] \<and> mergeId a = mergeId b"
      have kinds: "(\<exists>x0 \<in> set (allCells g). x = ?f (?k x0)) \<or>
                   (x \<in> set (allCells g) \<and> \<not> touchedBy g ?box (mergeId x) \<and> mergeId x \<noteq> ?mid)"
        if "x \<in> set (allCells (mergeRows r1 r2 c1 c2 g))" "mergeId x \<noteq> []" for x
      proof -
        from that(1) sub have "x \<in> ?k ` set (allCells g) \<or> x \<in> ?f ` ?k ` set (allCells g)" by auto
        then show ?thesis
        proof
          assume "x \<in> ?k ` set (allCells g)"
          then obtain x0 where x0: "x0 \<in> set (allCells g)" "x = ?k x0" by auto
          with that(2) have nt: "\<not> touchedBy g ?box (mergeId x0)" and xx: "x = x0"
            by (auto simp: clearMerge_def split: if_splits)
          with fresh [OF x0(1)] have "mergeId x0 \<noteq> ?mid" by auto
          with x0 nt xx show ?thesis by auto
        next
          assume "x \<in> ?f ` ?k ` set (allCells g)"
          then show ?thesis by auto
        qed
      qed
      from m have mb: "mergeId b \<noteq> []" by auto
      consider (new) "\<exists>x0 \<in> set (allCells g). a = ?f (?k x0)"
        | (old) "a \<in> set (allCells g)" "mergeId a \<noteq> ?mid"
        using kinds [OF a] m by blast
      then show "sameFields a b"
      proof cases
        case new
        then have ma: "mergeId a = ?mid" by auto
        with m kinds [OF b mb] have "\<exists>x0 \<in> set (allCells g). b = ?f (?k x0)" by auto
        with new show ?thesis by (auto simp: sameFields_def)
      next
        case old
        with m kinds [OF b mb] have "b \<in> set (allCells g)" by auto
        with old(1) m cons show ?thesis unfolding groupsConsistent_iff by blast
      qed
    qed
  qed
qed


section \<open>Merge identifiers\<close>

text \<open>
  C10.  The merge identifier is the plain concatenation of the four corner coordinates, so
  it does not determine the rectangle: the rectangle rows 1 to 1, columns 1 to 11 and the
  rectangle rows 1 to 11, columns 1 to 1 are different and both get the identifier
  \<open>11111\<close>.
\<close>

theorem createMergeId_not_injective:
  "createMergeId 1 1 1 11 = ''11111'' \<and> createMergeId 1 1 11 1 = ''11111'' \<and>
   ((1::int), (1::int), (1::int), (11::int)) \<noteq> (1, 1, 11, 1) \<and>
   (\<exists>r1 c1 r2 c2 r1' c1' r2' c2'.
      1 \<le> r1 \<and> r1 \<le> r2 \<and> 1 \<le> c1 \<and> c1 \<le> c2 \<and> 1 \<le> r1' \<and> r1' \<le> r2' \<and> 1 \<le> c1' \<and> c1' \<le> c2' \<and>
      (r1, c1, r2, c2) \<noteq> (r1', c1', r2', c2') \<and>
      createMergeId r1 c1 r2 c2 = createMergeId r1' c1' r2' c2')"
proof -
  have a: "createMergeId 1 1 1 11 = ''11111''"
    by code_simp
  have b: "createMergeId 1 1 11 1 = ''11111''"
    by code_simp
  have "\<exists>r1 c1 r2 c2 r1' c1' r2' c2'.
      (1::int) \<le> r1 \<and> r1 \<le> r2 \<and> (1::int) \<le> c1 \<and> c1 \<le> c2 \<and> (1::int) \<le> r1' \<and> r1' \<le> r2' \<and> (1::int) \<le> c1' \<and> c1' \<le> c2' \<and>
      (r1, c1, r2, c2) \<noteq> (r1', c1', r2', c2') \<and>
      createMergeId r1 c1 r2 c2 = createMergeId r1' c1' r2' c2'"
    apply (rule exI [of _ 1], rule exI [of _ 1], rule exI [of _ 1], rule exI [of _ 11])
    apply (rule exI [of _ 1], rule exI [of _ 1], rule exI [of _ 11], rule exI [of _ 1])
    using a b by simp
  with a b show ?thesis by simp
qed


section \<open>Selection and hidden cells\<close>

lemma set_getRectangularSelection:
  "set (getRectangularSelection sr sc er ec) =
     {mkCellId i j | i j. min sr er \<le> i \<and> i \<le> max sr er \<and> min sc ec \<le> j \<and> j \<le> max sc ec}"
  unfolding getRectangularSelection_def Let_def set_setOf by auto blast

lemma selectionVisible_iff: "selectionVisible w \<longleftrightarrow> (\<forall>cid \<in> set (selectedCells w). visibleId (tableRows w) cid)"
  by (simp add: selectionVisible_def list_all_iff)

lemma selectAll_visible: "selectionVisible (selectAllCells allowed w)" if "selectionVisible w"
  using that
  by (auto simp: selectionVisible_iff selectAllCells_def set_setOf visibleId_def list_ex_iff)

text \<open>
  C1, as the claim states it, fails for the drag-rectangle extension.  On a fresh 3 by 3
  grid the cells (1,1) and (1,2) are merged; a press on the merged cell (1,1) leaves a
  selection of non-hidden cells only, and the drag from there to (2,2) puts the
  identifier of the hidden cell (1,2) into the selection.
\<close>

theorem drag_selects_hidden_cell:
  "selectionVisible pressedOnMerged \<and>
   selectedCells draggedOverMerged = [mkCellId 1 1, mkCellId 1 2, mkCellId 2 1, mkCellId 2 2] \<and>
   \<not> visibleId (tableRows draggedOverMerged) (mkCellId 1 2) \<and>
   \<not> selectionVisible draggedOverMerged"
  by code_simp

text \<open>
  C1, amended.  From a selection that holds only identifiers of non-hidden cells, a press
  or a click on a non-hidden cell and select-all give a selection that holds only
  identifiers of non-hidden cells.  The drag-rectangle extension sets the selection to the
  pre-selection snapshot together with the identifier of every position of the rectangle
  spanned by the drag start and the hovered cell, hidden cells included.
\<close>

theorem selection_operations:
  assumes "selectionVisible w" and "visibleId (tableRows w) (mkCellId r c)"
  shows "selectionVisible (handleCellMouseDown allowed onInput shiftKey r c w) \<and>
         selectionVisible (handleCellClick allowed ctrlOrCmd r c w) \<and>
         selectionVisible (selectAllCells allowed w) \<and>
         (isDragging w \<and> dragStartCell w = Some (sr, sc) \<longrightarrow>
            set (selectedCells (handleCellMouseEnter er ec w)) =
              set (preSelection w) \<union>
              {mkCellId i j | i j. min sr er \<le> i \<and> i \<le> max sr er \<and> min sc ec \<le> j \<and> j \<le> max sc ec})"
proof -
  have press: "selectionVisible (handleCellMouseDown allowed onInput shiftKey r c w)"
    using assms by (auto simp: selectionVisible_iff handleCellMouseDown_def set_setAdd)
  have click: "selectionVisible (handleCellClick allowed ctrlOrCmd r c w)"
    using assms
    by (auto simp: selectionVisible_iff handleCellClick_def set_setAdd set_setDelete Let_def)
  have drag: "set (selectedCells (handleCellMouseEnter er ec w)) =
              set (preSelection w) \<union>
              {mkCellId i j | i j. min sr er \<le> i \<and> i \<le> max sr er \<and> min sc ec \<le> j \<and> j \<le> max sc ec}"
    if "isDragging w" "dragStartCell w = Some (sr, sc)"
    using that
    by (simp add: handleCellMouseEnter_def Let_def set_foldl_setAdd set_getRectangularSelection)
  from press click selectAll_visible [OF assms(1)] drag show ?thesis by blast
qed

lemma pressedOnMerged_facts:
  "selectionVisible pressedOnMerged" "visibleId (tableRows pressedOnMerged) (mkCellId 2 2)"
  "isDragging pressedOnMerged" "dragStartCell pressedOnMerged = Some (1, 1)"
  "preSelection pressedOnMerged = []"
  by code_simp+

theorem selection_operations_witness:
  "selectionVisible (handleCellMouseDown True False True 2 2 pressedOnMerged) \<and>
   selectionVisible (handleCellClick True True 2 2 pressedOnMerged) \<and>
   selectionVisible (selectAllCells True pressedOnMerged) \<and>
   set (selectedCells (handleCellMouseEnter 2 2 pressedOnMerged)) =
     {mkCellId i j | i j. 1 \<le> i \<and> i \<le> 2 \<and> 1 \<le> j \<and> j \<le> 2}"
  using selection_operations [OF pressedOnMerged_facts(1,2), where allowed = True and onInput = False
          and shiftKey = True and ctrlOrCmd = True and sr = 1 and sc = 1 and er = 2 and ec = 2]
        pressedOnMerged_facts(3,4,5)
  by simp

section \<open>Statistics and hidden cells\<close>

lemma foldl_count:
  "foldl (\<lambda>sum rw. sum + length (filter P (cells rw))) n rws = n + length (filter P (allCells rws))"
  by (induction rws arbitrary: n) (simp_all add: allCells_def)

lemma foldl_total:
  "foldl (\<lambda>sum rw. sum + length (cells rw)) n rws = n + length (allCells rws)"
  by (induction rws arbitrary: n) (simp_all add: allCells_def)

lemma mergedPairRow_reached:
  "tableRows (snd (mergeCells (dragGesture 1 1 1 2
      (toggleBlocked 1 1 (createNewTable (Num 1) (Num 2) (initialWidget (Num 1) (Num 2))))))) = [mergedPairRow]"
  by code_simp


text \<open>
  C2, as the claim states it, fails: \<open>totalCells\<close> and \<open>blockedCells\<close> count hidden cells
  too.  In a grid of one row whose two cells form one blocked merge group, one cell is
  visible, and yet both counts are 2.
\<close>

theorem statistics_count_hidden_cells:
  "totalCells (updateCellStatistics [mergedPairRow] (computeMergeSpans [mergedPairRow])) = 2 \<and>
   length (filter (\<lambda>c. \<not> isCellHidden c (computeMergeSpans [mergedPairRow])) (allCells [mergedPairRow])) = 1 \<and>
   blockedCells (updateCellStatistics [mergedPairRow] (computeMergeSpans [mergedPairRow])) = 2 \<and>
   length (filter (\<lambda>c. isBlocked c \<and> \<not> isCellHidden c (computeMergeSpans [mergedPairRow])) (allCells [mergedPairRow])) = 1"
  by code_simp


text \<open>
  C2, amended.  \<open>mergedCells\<close> is the number of non-hidden merged cells and \<open>blankCells\<close>
  the number of non-hidden blank cells, so no hidden cell contributes to either;
  \<open>totalCells\<close> is the number of all cells of the grid, hidden or not.
\<close>

theorem statistics_visible_counts:
  "totalCells (updateCellStatistics rws spans) = length (allCells rws) \<and>
   mergedCells (updateCellStatistics rws spans) =
     length (filter isMerged (filter (\<lambda>c. \<not> isCellHidden c spans) (allCells rws))) \<and>
   blankCells (updateCellStatistics rws spans) =
     length (filter isBlank (filter (\<lambda>c. \<not> isCellHidden c spans) (allCells rws)))"
  by (simp add: updateCellStatistics_def foldl_count foldl_total conj_commute)


lemma mergedPairRow_all: "length (allCells [mergedPairRow]) = 2"
  by code_simp

lemma mergedPairRow_merged:
  "length (filter isMerged (filter (\<lambda>c. \<not> isCellHidden c (computeMergeSpans [mergedPairRow]))
     (allCells [mergedPairRow]))) = 1"
  by code_simp

lemma mergedPairRow_blank:
  "length (filter isBlank (filter (\<lambda>c. \<not> isCellHidden c (computeMergeSpans [mergedPairRow]))
     (allCells [mergedPairRow]))) = 0"
  by code_simp

theorem statistics_visible_counts_witness:
  "totalCells (updateCellStatistics [mergedPairRow] (computeMergeSpans [mergedPairRow])) = 2 \<and>
   mergedCells (updateCellStatistics [mergedPairRow] (computeMergeSpans [mergedPairRow])) = 1 \<and>
   blankCells (updateCellStatistics [mergedPairRow] (computeMergeSpans [mergedPairRow])) = 0"
  using statistics_visible_counts [of "[mergedPairRow]" "computeMergeSpans [mergedPairRow]"]
  by (simp only: mergedPairRow_all mergedPairRow_merged mergedPairRow_blank)

section \<open>Merge validation\<close>

text \<open>
  C3.  For a selection that holds the identifiers of the positions \<open>ps\<close>: with fewer than
  two of them \<open>mergeCells\<close> does nothing; with two or more, when some position of their
  bounding rectangle is neither selected nor the cell of a merge group whose anchor is
  selected, it raises the alert that asks for a rectangular area and returns the state
  unchanged, grid and selection included; only when every position of the rectangle is
  covered does it replace the grid by the merged grid and empty the selection.
\<close>

theorem mergeCells_validation:
  assumes "selectedCells w = map (\<lambda>p. mkCellId (fst p) (snd p)) ps"
  shows "(length ps < 2 \<longrightarrow> mergeCells w = (None, w)) \<and>
         (2 \<le> length ps \<and> \<not> specMergeValid w ps \<longrightarrow>
            mergeCells w = (Some ''Please select a rectangular area to merge'', w)) \<and>
         (2 \<le> length ps \<and> specMergeValid w ps \<longrightarrow>
            fst (mergeCells w) = None \<and> selectedCells (snd (mergeCells w)) = [] \<and>
            tableRows (snd (mergeCells w)) =
              (case boundingBox ps of (r1, r2, c1, c2) \<Rightarrow> mergeRows r1 r2 c1 c2 (tableRows w)))"
proof -
  obtain r1 r2 c1 c2 where bb: "boundingBox ps = (r1, r2, c1, c2)" by (cases "boundingBox ps") auto
  show ?thesis
    using mergeCells_cases [OF assms] bb by (auto simp: resetDragState_def)
qed


lemma cornerSelected_facts:
  "selectedCells cornerSelected = map (\<lambda>p. mkCellId (fst p) (snd p)) [(1, 1), (1, 2), (2, 1)]"
  "\<not> specMergeValid cornerSelected [(1, 1), (1, 2), (2, 1)]"
  by code_simp+

lemma squareSelected_facts:
  "selectedCells squareSelected = map (\<lambda>p. mkCellId (fst p) (snd p)) [(1, 1), (1, 2), (2, 1), (2, 2)]"
  "specMergeValid squareSelected [(1, 1), (1, 2), (2, 1), (2, 2)]"
  "boundingBox [(1, 1), (1, 2), (2, 1), (2, 2)] = (1, 2, 1, 2)"
  by code_simp+

lemma anchorSelected_facts:
  "selectedCells anchorSelected = map (\<lambda>p. mkCellId (fst p) (snd p)) [(1, 1), (2, 1), (2, 2)]"
  "specMergeValid anchorSelected [(1, 1), (2, 1), (2, 2)]"
  "boundingBox [(1, 1), (2, 1), (2, 2)] = (1, 2, 1, 2)"
  "mkCellId 1 2 \<notin> set (selectedCells anchorSelected)"
  by code_simp+

lemma singleSelected_facts:
  "selectedCells singleSelected = map (\<lambda>p. mkCellId (fst p) (snd p)) [(1, 1)]"
  by code_simp

theorem mergeCells_validation_witness:
  "mergeCells singleSelected = (None, singleSelected) \<and>
   mergeCells cornerSelected = (Some ''Please select a rectangular area to merge'', cornerSelected) \<and>
   fst (mergeCells squareSelected) = None \<and> selectedCells (snd (mergeCells squareSelected)) = [] \<and>
   tableRows (snd (mergeCells squareSelected)) = mergeRows 1 2 1 2 (tableRows squareSelected) \<and>
   mkCellId 1 2 \<notin> set (selectedCells anchorSelected) \<and>
   fst (mergeCells anchorSelected) = None \<and> selectedCells (snd (mergeCells anchorSelected)) = [] \<and>
   tableRows (snd (mergeCells anchorSelected)) = mergeRows 1 2 1 2 (tableRows anchorSelected)"
  using mergeCells_validation [OF singleSelected_facts]
        mergeCells_validation [OF cornerSelected_facts(1)] cornerSelected_facts(2)
        mergeCells_validation [OF squareSelected_facts(1)] squareSelected_facts(2,3)
        mergeCells_validation [OF anchorSelected_facts(1)] anchorSelected_facts(2,3,4)
  by simp

section \<open>The effect of a merge\<close>

lemma assignStep_cong:
  "sequenceNumber a = sequenceNumber b \<Longrightarrow> isBlocked a = isBlocked b \<Longrightarrow> isBlank a = isBlank b \<Longrightarrow>
   assignStep a mid = assignStep b mid"
  by (intro ext) (simp add: assignStep_def)

text \<open>
  C4.  For a valid merge of the positions \<open>ps\<close> with bounding rectangle \<open>r1..r2\<close> by
  \<open>c1..c2\<close> whose top-left cell exists: the new grid is the old one in which first every
  cell carrying a merge identifier met on a merged cell of the rectangle has been taken out
  of its group, wherever the cell lies, and then the cells of the rectangle have been
  assigned.  Cell by cell: a cell of the rectangle ends with the value, blocked flag and
  blank flag of the top-left cell, \<open>isMerged\<close> set and the identifier made of the four
  corner coordinates; a cell outside the rectangle whose group was met ends with
  \<open>isMerged\<close> cleared and the empty identifier; every other cell is as before.  The
  selection is empty afterwards.
\<close>

theorem mergeCells_effect:
  assumes sel: "selectedCells w = map (\<lambda>p. mkCellId (fst p) (snd p)) ps"
      and len: "2 \<le> length ps" and valid: "specMergeValid w ps"
      and bb: "boundingBox ps = (r1, r2, c1, c2)"
      and tl: "getCell (tableRows w) r1 c1 = Some topLeft"
  shows "tableRows (snd (mergeCells w)) =
           foldl (assignStep topLeft (createMergeId r1 c1 r2 c2))
             (mapCells (\<lambda>c. if touchedBy (tableRows w) (rectPositions r1 r2 c1 c2) (mergeId c)
                               then clearMerge c else c) (tableRows w))
             (rectPositions r1 r2 c1 c2) \<and>
         (\<forall>p cell. getCell (tableRows w) (fst p) (snd p) = Some cell \<longrightarrow>
            getCell (tableRows (snd (mergeCells w))) (fst p) (snd p) =
              Some (if inBox (r1, r2, c1, c2) p then
                      cell\<lparr>sequenceNumber := sequenceNumber topLeft, isBlocked := isBlocked topLeft,
                           isBlank := isBlank topLeft, isMerged := True,
                           mergeId := createMergeId r1 c1 r2 c2\<rparr>
                    else if touchedBy (tableRows w) (rectPositions r1 r2 c1 c2) (mergeId cell)
                      then clearMerge cell else cell)) \<and>
         selectedCells (snd (mergeCells w)) = []"
proof -
  let ?g = "tableRows w"
  let ?box = "rectPositions r1 r2 c1 c2"
  let ?k = "\<lambda>c. if touchedBy ?g ?box (mergeId c) then clearMerge c else c"
  let ?mid = "createMergeId r1 c1 r2 c2"
  let ?f = "\<lambda>cell. cell\<lparr>sequenceNumber := sequenceNumber topLeft, isBlocked := isBlocked topLeft,
                           isBlank := isBlank topLeft, isMerged := True, mergeId := ?mid\<rparr>"
  from mergeCells_cases [OF sel] len valid bb
  have res: "tableRows (snd (mergeCells w)) = mergeRows r1 r2 c1 c2 ?g"
    and emp: "selectedCells (snd (mergeCells w)) = []"
    by (simp_all add: resetDragState_def)
  have rows1: "foldl dissolveStep ?g ?box = mapCells ?k ?g" by (rule dissolve_closed)
  have colk: "\<And>x. columnIndex (?k x) = columnIndex x" by (simp add: clearMerge_def)
  have tl1: "getCell (mapCells ?k ?g) r1 c1 = Some (?k topLeft)"
    using getCell_mapCells [of ?k ?g r1 c1, OF colk] tl by simp
  have same: "assignStep (?k topLeft) ?mid = assignStep topLeft ?mid"
    by (rule assignStep_cong) (simp_all add: clearMerge_def)
  have eq: "mergeRows r1 r2 c1 c2 ?g = foldl (assignStep topLeft ?mid) (mapCells ?k ?g) ?box"
    unfolding mergeRows_def Let_def rows1 tl1 by (simp add: same)
  have asg: "assignStep topLeft ?mid = (\<lambda>rws p. updateCell rws (fst p) (snd p) ?f)"
    by (intro ext) (simp add: assignStep_def)
  have cells: "getCell (tableRows (snd (mergeCells w))) (fst p) (snd p) =
              Some (if inBox (r1, r2, c1, c2) p then ?f cell else ?k cell)"
    if c: "getCell ?g (fst p) (snd p) = Some cell" for p cell
  proof -
    have g1: "getCell (mapCells ?k ?g) (fst p) (snd p) = Some (?k cell)"
      using getCell_mapCells [of ?k ?g "fst p" "snd p", OF colk] c by simp
    have "getCell (foldl (\<lambda>rws p. updateCell rws (fst p) (snd p) ?f) (mapCells ?k ?g) ?box) (fst p) (snd p) =
           (if (fst p, snd p) \<in> set ?box then map_option ?f (getCell (mapCells ?k ?g) (fst p) (snd p))
            else getCell (mapCells ?k ?g) (fst p) (snd p))"
      by (rule assign_fold) simp_all
    moreover have "?f (?k cell) = ?f cell" by (simp add: clearMerge_def)
    ultimately show ?thesis
      unfolding res eq asg g1 by (simp add: set_rectPositions)
  qed
  show ?thesis
    using res eq emp cells by simp
qed


lemma columnSelected_facts:
  "selectedCells columnSelected = map (\<lambda>p. mkCellId (fst p) (snd p)) [(1, 1), (2, 1)]"
  "specMergeValid columnSelected [(1, 1), (2, 1)]"
  "boundingBox [(1, 1), (2, 1)] = (1, 2, 1, 1)"
  "getCell (tableRows columnSelected) 1 1 =
     Some ((defaultCell 1 1)\<lparr>sequenceNumber := ''9'', isMerged := True, mergeId := ''1113''\<rparr>)"
  "getCell (tableRows columnSelected) 2 1 = Some (defaultCell 2 1)"
  "getCell (tableRows columnSelected) 1 3 =
     Some ((defaultCell 1 3)\<lparr>sequenceNumber := ''9'', isMerged := True, mergeId := ''1113''\<rparr>)"
  "getCell (tableRows columnSelected) 3 3 = Some (defaultCell 3 3)"
  "touchedBy (tableRows columnSelected) (rectPositions 1 2 1 1) ''1113''"
  "createMergeId 1 1 2 1 = ''1121''"
  by code_simp+

theorem mergeCells_effect_witness:
  "getCell (tableRows (snd (mergeCells columnSelected))) 1 1 =
     Some ((defaultCell 1 1)\<lparr>sequenceNumber := ''9'', isMerged := True, mergeId := ''1121''\<rparr>) \<and>
   getCell (tableRows (snd (mergeCells columnSelected))) 2 1 =
     Some ((defaultCell 2 1)\<lparr>sequenceNumber := ''9'', isMerged := True, mergeId := ''1121''\<rparr>) \<and>
   getCell (tableRows (snd (mergeCells columnSelected))) 1 3 =
     Some ((defaultCell 1 3)\<lparr>sequenceNumber := ''9''\<rparr>) \<and>
   getCell (tableRows (snd (mergeCells columnSelected))) 3 3 = Some (defaultCell 3 3) \<and>
   selectedCells (snd (mergeCells columnSelected)) = []"
proof -
  have len: "2 \<le> length [(1::int, 1::int), (2, 1)]" by simp
  note t = mergeCells_effect [OF columnSelected_facts(1) len columnSelected_facts(2,3,4)]
  note cells = t [THEN conjunct2, THEN conjunct1, rule_format]
  have n: "\<not> touchedBy (tableRows columnSelected) (rectPositions 1 2 1 1) []"
    by (rule touchedBy_empty_id)
  have a: "getCell (tableRows (snd (mergeCells columnSelected))) 1 1 =
     Some ((defaultCell 1 1)\<lparr>sequenceNumber := ''9'', isMerged := True, mergeId := ''1121''\<rparr>)"
    using cells [of "(1, 1)"] columnSelected_facts(4,9)
    by (simp add: inBox_def defaultCell_def)
  have b: "getCell (tableRows (snd (mergeCells columnSelected))) 2 1 =
     Some ((defaultCell 2 1)\<lparr>sequenceNumber := ''9'', isMerged := True, mergeId := ''1121''\<rparr>)"
    using cells [of "(2, 1)"] columnSelected_facts(5,9)
    by (simp add: inBox_def defaultCell_def)
  have c: "getCell (tableRows (snd (mergeCells columnSelected))) 1 3 =
     Some ((defaultCell 1 3)\<lparr>sequenceNumber := ''9''\<rparr>)"
    using cells [of "(1, 3)"] columnSelected_facts(6,8)
    by (simp add: inBox_def defaultCell_def clearMerge_def)
  have d: "getCell (tableRows (snd (mergeCells columnSelected))) 3 3 = Some (defaultCell 3 3)"
    using cells [of "(3, 3)"] columnSelected_facts(7) n
    by (simp add: inBox_def defaultCell_def)
  have e: "selectedCells (snd (mergeCells columnSelected)) = []"
    using t by blast
  from a b c d e show ?thesis by simp
qed

section \<open>Propagation across a merge group\<close>

text \<open>
  The lemmas on operations that keep merge groups consistent show that setting a value, toggling the blocked flag,
  unmerging, blanking and unblanking keep all cells that share a merge identifier in
  agreement, that committing an autofill does so when the two merge tags of every cell
  agree, and that a merge does so when no cell outside the dissolved groups carries the
  new identifier already.  The two side conditions are needed: the first fails after
  loading a snapshot whose cells carry an identifier without being marked merged, the
  second fails on the grid below.
\<close>

lemma autofill_untagged_example:
  "groupsConsistent (tableRows untaggedLoaded) \<and> \<not> tagsAgree (tableRows untaggedLoaded) \<and>
   \<not> groupsConsistent (tableRows untaggedFilled)"
  by code_simp

lemma topSelected_consistent: "groupsConsistent (tableRows topSelected)"
  by code_simp

lemma topSelected_selection: "selectedCells topSelected = [mkCellId 1 11, mkCellId 1 12]"
  by code_simp

lemma bothMerged_bottom:
  "getCell (tableRows bothMerged) 11 1 =
     Some ((defaultCell 11 1)\<lparr>sequenceNumber := ''5'', isMerged := True, mergeId := ''111112''\<rparr>)"
  by code_simp

lemma bothMerged_top:
  "getCell (tableRows bothMerged) 1 11 =
     Some ((defaultCell 1 11)\<lparr>sequenceNumber := ''7'', isMerged := True, mergeId := ''111112''\<rparr>)"
  by code_simp

lemma bothMerged_inconsistent: "\<not> groupsConsistent (tableRows bothMerged)"
  by code_simp

text \<open>
  C5 on the code.  On a fresh grid of 11 rows and 12 columns with 5 typed into (11,1) and 7
  into (1,11), the cells (11,1) and (11,2) are merged; all cells that share a merge
  identifier agree.  Merging (1,11) and (1,12) then gives these two cells the identifier
  \<open>111112\<close> that (11,1) and (11,2) carry already, and the cells sharing that identifier
  no longer agree on their value: (11,1) holds 5 and (1,11) holds 7.
\<close>

theorem merge_breaks_propagation:
  "groupsConsistent (tableRows topSelected) \<and>
   selectedCells topSelected = [mkCellId 1 11, mkCellId 1 12] \<and>
   fst (mergeCells topSelected) = None \<and>
   getCell (tableRows (snd (mergeCells topSelected))) 11 1 =
     Some ((defaultCell 11 1)\<lparr>sequenceNumber := ''5'', isMerged := True, mergeId := ''111112''\<rparr>) \<and>
   getCell (tableRows (snd (mergeCells topSelected))) 1 11 =
     Some ((defaultCell 1 11)\<lparr>sequenceNumber := ''7'', isMerged := True, mergeId := ''111112''\<rparr>) \<and>
   \<not> groupsConsistent (tableRows (snd (mergeCells topSelected)))"
proof -
  have "fst (mergeCells topSelected) = None" by code_simp
  then show ?thesis
    using topSelected_consistent topSelected_selection bothMerged_bottom bothMerged_top
      bothMerged_inconsistent
    by (simp add: bothMerged_def)
qed

theorem merge_breaks_propagation_witness:
  "groupsConsistent (tableRows topSelected) \<and> \<not> groupsConsistent (tableRows bothMerged)"
  using merge_breaks_propagation by (simp add: bothMerged_def)

section \<open>The autofill run\<close>



























section \<open>Direction of an autofill drag\<close>

text \<open>
  C7.  On a pointer-enter while an autofill drag is active, the direction stored in the drag
  state is horizontal when the hovered cell is in the source row and another column,
  vertical when it is in the source column and another row, horizontal exactly when the
  absolute column delta is at least the absolute row delta when both coordinates differ,
  and none when the hovered cell is the source itself.
\<close>

theorem autofill_direction:
  assumes "active (autofillDrag w)"
  shows "(r = sourceRow (autofillDrag w) \<and> c \<noteq> sourceCol (autofillDrag w) \<longrightarrow>
            direction (autofillDrag (handleCellMouseEnterAutofill r c w)) = Some Horizontal) \<and>
         (c = sourceCol (autofillDrag w) \<and> r \<noteq> sourceRow (autofillDrag w) \<longrightarrow>
            direction (autofillDrag (handleCellMouseEnterAutofill r c w)) = Some Vertical) \<and>
         (r \<noteq> sourceRow (autofillDrag w) \<and> c \<noteq> sourceCol (autofillDrag w) \<longrightarrow>
            (direction (autofillDrag (handleCellMouseEnterAutofill r c w)) = Some Horizontal
               \<longleftrightarrow> \<bar>c - sourceCol (autofillDrag w)\<bar> \<ge> \<bar>r - sourceRow (autofillDrag w)\<bar>) \<and>
            (direction (autofillDrag (handleCellMouseEnterAutofill r c w)) = Some Vertical
               \<longleftrightarrow> \<bar>c - sourceCol (autofillDrag w)\<bar> < \<bar>r - sourceRow (autofillDrag w)\<bar>)) \<and>
         (r = sourceRow (autofillDrag w) \<and> c = sourceCol (autofillDrag w) \<longrightarrow>
            direction (autofillDrag (handleCellMouseEnterAutofill r c w)) = None)"
  using assms by (auto simp: handleCellMouseEnterAutofill_def Let_def)

lemma dragFrom22_active: "active (autofillDrag dragFrom22)"
  by (simp add: dragFrom22_def)

theorem autofill_direction_witness:
  "direction (autofillDrag (handleCellMouseEnterAutofill 2 5 dragFrom22)) = Some Horizontal \<and>
   direction (autofillDrag (handleCellMouseEnterAutofill 4 2 dragFrom22)) = Some Vertical \<and>
   direction (autofillDrag (handleCellMouseEnterAutofill 3 1 dragFrom22)) = Some Horizontal \<and>
   direction (autofillDrag (handleCellMouseEnterAutofill 5 3 dragFrom22)) = Some Vertical \<and>
   direction (autofillDrag (handleCellMouseEnterAutofill 2 2 dragFrom22)) = None"
proof -
  have s: "sourceRow (autofillDrag dragFrom22) = 2" "sourceCol (autofillDrag dragFrom22) = 2"
    by (simp_all add: dragFrom22_def)
  show ?thesis
    using autofill_direction [OF dragFrom22_active, of 2 5]
          autofill_direction [OF dragFrom22_active, of 4 2]
          autofill_direction [OF dragFrom22_active, of 3 1]
          autofill_direction [OF dragFrom22_active, of 5 3]
          autofill_direction [OF dragFrom22_active, of 2 2]
    by (simp add: s)
qed

section \<open>The dimension ceiling\<close>








section \<open>Loading a snapshot\<close>









end
